theory Spec2Isabelle
  imports Main "HOL-Library.Word"
begin

unbundle bit_operations_syntax

section \<open>Common data: bytes, Python sequences, exceptions\<close>

text \<open>
  A Python \<open>bytes\<close>/\<open>bytearray\<close> value is a list of 8-bit words. Python integers are
  unbounded and are modelled as \<open>int\<close> (or \<open>nat\<close> where they are lengths or indices
  that the code keeps non-negative). Every exception the modelled code can raise is a
  constructor of \<open>pyerr\<close>; where the source attaches a message that tells one failure
  from another, the message is kept.
\<close>

type_synonym byte = "8 word"

datatype pyerr =
    AssertionError string
  | RuntimeError string
  | RuntimeErrorArg string int
  | NDEFdecodeError string
  | ValueError string
  | IndexError
  | KeyError
  | TypeError
  | AttributeError
  | UnicodeDecodeError
  | UnicodeEncodeError
  | StructError
  | LookupError
  | BusyError

text \<open>\<open>xs[i:j]\<close> for non-negative \<open>i\<close>, \<open>j\<close>: both ends are clamped to the length.\<close>

definition py_slice :: "'a list \<Rightarrow> nat \<Rightarrow> nat \<Rightarrow> 'a list" where
  "py_slice xs i j = take (j - i) (drop i xs)"

text \<open>\<open>sum(bs)\<close> over a byte sequence: an unbounded Python integer.\<close>

definition py_sum :: "byte list \<Rightarrow> int" where
  "py_sum bs = sum_list (map uint bs)"

section \<open>Frame codec (\<open>NFC_PN532.py\<close>)\<close>

definition PREAMBLE :: byte where "PREAMBLE = 0x00"
definition STARTCODE1 :: byte where "STARTCODE1 = 0x00"
definition STARTCODE2 :: byte where "STARTCODE2 = 0xFF"
definition POSTAMBLE :: byte where "POSTAMBLE = 0x00"

text \<open>
  \<open>PN532._write_frame\<close>. The result is the byte string handed to \<open>_write_data\<close>.
  The source allocates \<open>length + 8\<close> bytes and then assigns the \<open>length\<close> data bytes
  to the slice \<open>frame[5:-2]\<close>, which holds \<open>length + 1\<close> bytes: the slice assignment
  shrinks the array to \<open>length + 7\<close> bytes. The last two positions are then written
  through the negative indices \<open>-2\<close> and \<open>-1\<close>.
\<close>

definition write_frame :: "byte list \<Rightarrow> pyerr + byte list" where
  "write_frame data =
     (if \<not> (1 < length data \<and> length data < 255)
      then Inl (AssertionError ''Data must be array of 1 to 255 bytes.'')
      else
        let len = int (length data);
            frame0 = replicate (length data + 8) (0 :: byte);
            frame1 = frame0[0 := PREAMBLE, 1 := STARTCODE1, 2 := STARTCODE2];
            checksum0 = py_sum (py_slice frame1 0 3);
            frame2 = frame1[3 := word_of_int (len AND 0xFF)];
            frame3 = frame2[4 := word_of_int ((NOT len + 1) AND 0xFF)];
            frame4 = take 5 frame3 @ data @ drop (length frame3 - 2) frame3;
            checksum = checksum0 + py_sum data;
            frame5 = frame4[length frame4 - 2 := word_of_int (NOT checksum AND 0xFF)];
            frame6 = frame5[length frame5 - 1 := POSTAMBLE]
        in Inr frame6)"

text \<open>
  The preamble loop of \<open>PN532._read_frame\<close>:
  \<^verbatim>\<open>
  while response[offset] == 0x00:
      offset += 1
      if offset >= len(response): raise RuntimeError(...)
  \<close>
  Indexing an empty response raises \<open>IndexError\<close>.
\<close>

function swallow_zeros :: "byte list \<Rightarrow> nat \<Rightarrow> pyerr + nat" where
  "swallow_zeros response offset =
     (if offset \<ge> length response then Inl IndexError
      else if response ! offset = 0x00 then
        (if offset + 1 \<ge> length response
         then Inl (RuntimeError ''Response frame preamble does not contain 0x00FF!'')
         else swallow_zeros response (offset + 1))
      else Inr offset)"
  by pat_completeness auto
termination
  by (relation "measure (\<lambda>(response, offset). length response - offset)") auto

declare swallow_zeros.simps [simp del]

text \<open>The rest of \<open>_read_frame\<close>, on the bytes that \<open>_read_data\<close> returned.\<close>

definition parse_frame :: "byte list \<Rightarrow> pyerr + byte list" where
  "parse_frame response =
     (case swallow_zeros response 0 of
        Inl e \<Rightarrow> Inl e
      | Inr offset0 \<Rightarrow>
          if response ! offset0 \<noteq> 0xFF
          then Inl (RuntimeError ''Response frame preamble does not contain 0x00FF!'')
          else
            let offset = offset0 + 1 in
            if offset \<ge> length response then Inl (RuntimeError ''Response contains no data!'')
            else
              let frame_len = unat (response ! offset) in
              if offset + 1 \<ge> length response then Inl IndexError
              else if (int frame_len + uint (response ! (offset + 1))) AND 0xFF \<noteq> 0
              then Inl (RuntimeError ''Response length checksum did not match length!'')
              else
                let checksum = py_sum (py_slice response (offset + 2) (offset + 2 + frame_len + 1)) AND 0xFF in
                if checksum \<noteq> 0
                then Inl (RuntimeErrorArg ''Response checksum did not match expected value: '' checksum)
                else Inr (py_slice response (offset + 2) (offset + 2 + frame_len)))"

text \<open>
  \<open>PN532._read_frame(length)\<close>: the bus is the function \<open>_read_data\<close>, which returns
  the requested number of bytes.
\<close>

definition read_frame :: "(nat \<Rightarrow> byte list) \<Rightarrow> nat \<Rightarrow> pyerr + byte list" where
  "read_frame read_data len = parse_frame (read_data (len + 8))"


section \<open>Tag command set (\<open>NFC_PN532.py\<close>)\<close>

text \<open>\<open>xs[i]\<close> for a non-negative index: \<open>IndexError\<close> out of range.\<close>

definition py_index :: "'a list \<Rightarrow> nat \<Rightarrow> pyerr + 'a" where
  "py_index xs i = (if i < length xs then Inr (xs ! i) else Inl IndexError)"


section \<open>Mifare memory model (\<open>utag.py\<close>, class \<open>NFCTag\<close>)\<close>

definition nsectors :: nat where "nsectors = 16"
definition nblocks :: nat where "nblocks = 64"
definition blen :: nat where "blen = 16"
definition bps :: nat where "bps = 4"

text \<open>
  \<open>self._blocks[i]\<close> is the window
  \<open>self._buffer_memory[i * self._nsectors : (i * self._nsectors) + self._nsectors]\<close>
  of the one backing array; the dictionary has the keys \<open>0..63\<close>, so any other key
  raises \<open>KeyError\<close>. The model keeps the backing array and computes the window.
\<close>

definition block_window :: "byte list \<Rightarrow> nat \<Rightarrow> byte list" where
  "block_window memory i = py_slice memory (i * nsectors) (i * nsectors + nsectors)"

text \<open>\<open>NFCTag.block(number)\<close>: a copy of the window.\<close>

definition block :: "byte list \<Rightarrow> int \<Rightarrow> pyerr + byte list" where
  "block memory number =
     (if 0 \<le> number \<and> number < int nblocks then Inr (block_window memory (nat number))
      else Inl KeyError)"

text \<open>
  \<open>self._blocks[number][:] = block_data\<close>: assignment through the window writes into
  the backing array; a memoryview cannot be resized, so a right-hand side of another
  length raises \<open>ValueError\<close>.
\<close>

definition assign_block :: "byte list \<Rightarrow> int \<Rightarrow> byte list \<Rightarrow> pyerr + byte list" where
  "assign_block memory number block_data =
     (if \<not> (0 \<le> number \<and> number < int nblocks) then Inl KeyError
      else if length block_data \<noteq> length (block_window memory (nat number))
      then Inl (ValueError ''memoryview assignment: lvalue and rvalue have different structures'')
      else Inr (take (nat number * nsectors) memory @ block_data
                @ drop (nat number * nsectors + nsectors) memory))"

text \<open>
  \<open>NFCTag.get_block(number)\<close>. The device is optional; when present, its
  \<open>read_mifare_classic\<close> is a function from the block number to an exception,
  \<open>None\<close>, or the bytes read. The result is the new memory image and the returned block.
\<close>

definition get_block ::
  "byte list \<Rightarrow> (int \<Rightarrow> pyerr + byte list option) option \<Rightarrow> int \<Rightarrow> pyerr + byte list \<times> byte list" where
  "get_block memory device number =
     (if number > int nblocks - 1 then Inl IndexError
      else
        let updated =
          (case device of
             None \<Rightarrow> Inr memory
           | Some read_mifare_classic \<Rightarrow>
               (case read_mifare_classic number of
                  Inl e \<Rightarrow> Inl e
                | Inr None \<Rightarrow> Inr memory
                | Inr (Some block_data) \<Rightarrow>
                    if block_data \<noteq> [] \<and> length block_data = blen
                    then assign_block memory number block_data
                    else Inr memory))
        in (case updated of
              Inl e \<Rightarrow> Inl e
            | Inr memory' \<Rightarrow>
                (case block memory' number of
                   Inl e \<Rightarrow> Inl e
                 | Inr b \<Rightarrow> Inr (memory', b))))"

section \<open>Mifare application directory (\<open>utag.py\<close>, class \<open>MAD1\<close>)\<close>

text \<open>
  \<open>struct.unpack("H", aid)\<close> has no byte-order prefix, so it reads the two bytes in
  the byte order of the host. The host's byte order is a parameter of the model. A
  buffer that is not exactly two bytes long raises.
\<close>

datatype byteorder = LittleEndian | BigEndian

definition unpack_H :: "byteorder \<Rightarrow> byte list \<Rightarrow> pyerr + nat" where
  "unpack_H bo bs =
     (case bs of
        [b0, b1] \<Rightarrow>
          Inr (case bo of
                 LittleEndian \<Rightarrow> unat b0 + 256 * unat b1
               | BigEndian \<Rightarrow> 256 * unat b0 + unat b1)
      | _ \<Rightarrow> Inl StructError)"

definition MAD_AID_NFC :: nat where "MAD_AID_NFC = 0xE103"

record mad1 =
  mad_data :: "byte list"
  mad_crc :: byte
  mad_info :: byte
  mad_aids :: "(nat \<times> byte list) list"
  mad_nfc_sectors :: "nat list"

text \<open>
  The loop of \<open>MAD1._get_nfc_sectors\<close> over \<open>self._aids.items()\<close>, in insertion
  order. When \<open>struct.unpack\<close> raises, the exception is caught (the entry is printed)
  and \<open>aid_code\<close> keeps the value 0.
\<close>

fun nfc_sectors_loop :: "byteorder \<Rightarrow> (nat \<times> byte list) list \<Rightarrow> nat list \<Rightarrow> nat list" where
  "nfc_sectors_loop bo [] acc = acc"
| "nfc_sectors_loop bo ((sec_index, aid) # rest) acc =
     (let aid_code = (case unpack_H bo aid of Inl _ \<Rightarrow> 0 | Inr c \<Rightarrow> c)
      in nfc_sectors_loop bo rest (if aid_code = MAD_AID_NFC then acc @ [sec_index] else acc))"

definition get_nfc_sectors :: "byteorder \<Rightarrow> mad1 \<Rightarrow> mad1" where
  "get_nfc_sectors bo m = m\<lparr>mad_nfc_sectors := nfc_sectors_loop bo (mad_aids m) []\<rparr>"

text \<open>
  \<open>MAD1.set_mad_data(data)\<close>: the dictionary
  \<open>dict(zip(range(1, 16), [data[i:i+2] for i in range(2, 32, 2)]))\<close> is kept as the
  list of its items; \<open>range(2, 32, 2)\<close> is \<open>2 + 2 * j\<close> for \<open>j = 0..14\<close>.
\<close>

definition set_mad_data :: "byteorder \<Rightarrow> byte list \<Rightarrow> pyerr + mad1" where
  "set_mad_data bo data =
     (case py_index data 0 of
        Inl e \<Rightarrow> Inl e
      | Inr c \<Rightarrow>
          (case py_index data 1 of
             Inl e \<Rightarrow> Inl e
           | Inr i \<Rightarrow>
               Inr (get_nfc_sectors bo
                     \<lparr>mad_data = data, mad_crc = c, mad_info = i,
                      mad_aids = zip [1..<16]
                                   (map (\<lambda>i. py_slice data i (i + 2)) (map (\<lambda>j. 2 + 2 * j) [0..<15])),
                      mad_nfc_sectors = []\<rparr>)))"

text \<open>The property \<open>MAD1.NFCSectors\<close> recomputes the list when the dictionary is not empty.\<close>

definition NFCSectors :: "byteorder \<Rightarrow> mad1 \<Rightarrow> nat list" where
  "NFCSectors bo m =
     (if mad_aids m \<noteq> [] then mad_nfc_sectors (get_nfc_sectors bo m) else mad_nfc_sectors m)"


section \<open>TLV scanner (\<open>utag.py\<close>, \<open>NFCTag.find_tlvblock\<close>)\<close>


text \<open>
  An \<open>io.BytesIO\<close> object: its content and the read position. \<open>read(n)\<close> returns at
  most \<open>n\<close> bytes and advances the position by the number of bytes returned; at the end
  of the content it returns the empty byte string.
\<close>

record bytesio =
  content :: "byte list"
  pos :: nat

definition bio_read :: "bytesio \<Rightarrow> nat \<Rightarrow> byte list \<times> bytesio" where
  "bio_read s n =
     (let bs = py_slice (content s) (pos s) (pos s + n)
      in (bs, s\<lparr>pos := pos s + length bs\<rparr>))"













section \<open>Python strings and codecs\<close>

text \<open>
  A Python \<open>str\<close> is a sequence of Unicode code points, modelled as a list of natural
  numbers; \<open>pystr\<close> embeds an ASCII literal. \<open>str.encode\<close> and \<open>bytes.decode\<close> are
  the strict codecs of the language: UTF-8 (the default), ASCII, and UTF-16, which
  writes a byte-order mark followed by code units in the byte order of the host and
  which reads the byte order from the mark when there is one. (An interpreter that
  ignores the codec name and always uses UTF-8, as MicroPython does, agrees with them
  on ASCII and UTF-8 data; the concrete results stated below are of that kind.)
\<close>

type_synonym pystring = "nat list"

definition pystr :: "string \<Rightarrow> pystring" where
  "pystr s = map of_char s"

definition is_surrogate :: "nat \<Rightarrow> bool" where
  "is_surrogate c = (0xD800 \<le> c \<and> c \<le> 0xDFFF)"

definition utf8_encode_cp :: "nat \<Rightarrow> pyerr + byte list" where
  "utf8_encode_cp c =
     (if c < 0x80 then Inr [of_nat c]
      else if c < 0x800 then Inr [of_nat (0xC0 + c div 64), of_nat (0x80 + c mod 64)]
      else if is_surrogate c then Inl UnicodeEncodeError
      else if c < 0x10000
      then Inr [of_nat (0xE0 + c div 4096), of_nat (0x80 + (c div 64) mod 64),
                of_nat (0x80 + c mod 64)]
      else if c < 0x110000
      then Inr [of_nat (0xF0 + c div 262144), of_nat (0x80 + (c div 4096) mod 64),
                of_nat (0x80 + (c div 64) mod 64), of_nat (0x80 + c mod 64)]
      else Inl UnicodeEncodeError)"

fun utf8_encode :: "pystring \<Rightarrow> pyerr + byte list" where
  "utf8_encode [] = Inr []"
| "utf8_encode (c # cs) =
     (case utf8_encode_cp c of
        Inl e \<Rightarrow> Inl e
      | Inr bs \<Rightarrow> (case utf8_encode cs of Inl e \<Rightarrow> Inl e | Inr rest \<Rightarrow> Inr (bs @ rest)))"

definition is_cont :: "byte \<Rightarrow> bool" where
  "is_cont b = (0x80 \<le> unat b \<and> unat b \<le> 0xBF)"

definition cont_bits :: "byte \<Rightarrow> nat" where
  "cont_bits b = unat b mod 64"

text \<open>
  Strict UTF-8 decoding of one code point: the lead byte fixes the number of
  continuation bytes; overlong forms, surrogates and values above \<open>0x10FFFF\<close> are
  rejected through the bounds on the first continuation byte. The result is the code
  point and the bytes that follow it.
\<close>

definition utf8_decode_cp :: "byte \<Rightarrow> byte list \<Rightarrow> pyerr + nat \<times> byte list" where
  "utf8_decode_cp b bs =
     (let x = unat b in
      if x < 0x80 then Inr (x, bs)
      else if 0xC2 \<le> x \<and> x \<le> 0xDF then
        (case bs of
           c1 # r \<Rightarrow>
             if is_cont c1 then Inr ((x mod 32) * 64 + cont_bits c1, r)
             else Inl UnicodeDecodeError
         | _ \<Rightarrow> Inl UnicodeDecodeError)
      else if 0xE0 \<le> x \<and> x \<le> 0xEF then
        (case bs of
           c1 # c2 # r \<Rightarrow>
             if is_cont c1 \<and> is_cont c2
                \<and> (if x = 0xE0 then 0xA0 \<le> unat c1 else True)
                \<and> (if x = 0xED then unat c1 \<le> 0x9F else True)
             then Inr ((x mod 16) * 4096 + cont_bits c1 * 64 + cont_bits c2, r)
             else Inl UnicodeDecodeError
         | _ \<Rightarrow> Inl UnicodeDecodeError)
      else if 0xF0 \<le> x \<and> x \<le> 0xF4 then
        (case bs of
           c1 # c2 # c3 # r \<Rightarrow>
             if is_cont c1 \<and> is_cont c2 \<and> is_cont c3
                \<and> (if x = 0xF0 then 0x90 \<le> unat c1 else True)
                \<and> (if x = 0xF4 then unat c1 \<le> 0x8F else True)
             then Inr ((x mod 8) * 262144 + cont_bits c1 * 4096 + cont_bits c2 * 64
                       + cont_bits c3, r)
             else Inl UnicodeDecodeError
         | _ \<Rightarrow> Inl UnicodeDecodeError)
      else Inl UnicodeDecodeError)"

lemma utf8_decode_cp_shorter:
  "utf8_decode_cp b bs = Inr (c, rest) \<Longrightarrow> length rest \<le> length bs"
  unfolding utf8_decode_cp_def Let_def
  by (cases bs rule: remdups_adj.cases; cases "tl (tl bs)"; cases "tl (tl (tl bs))")
    (auto split: if_splits)

function (sequential) utf8_decode :: "byte list \<Rightarrow> pyerr + pystring" where
  "utf8_decode [] = Inr []"
| "utf8_decode (b # bs) =
     (case utf8_decode_cp b bs of
        Inl e \<Rightarrow> Inl e
      | Inr (c, rest) \<Rightarrow>
          (case utf8_decode rest of Inl e \<Rightarrow> Inl e | Inr cs \<Rightarrow> Inr (c # cs)))"
  by pat_completeness auto
termination
  by (relation "measure length") (auto dest: utf8_decode_cp_shorter)

fun ascii_encode :: "pystring \<Rightarrow> pyerr + byte list" where
  "ascii_encode [] = Inr []"
| "ascii_encode (c # cs) =
     (if c < 0x80
      then (case ascii_encode cs of Inl e \<Rightarrow> Inl e | Inr rest \<Rightarrow> Inr (of_nat c # rest))
      else Inl UnicodeEncodeError)"

fun ascii_decode :: "byte list \<Rightarrow> pyerr + pystring" where
  "ascii_decode [] = Inr []"
| "ascii_decode (b # bs) =
     (if unat b < 0x80
      then (case ascii_decode bs of Inl e \<Rightarrow> Inl e | Inr cs \<Rightarrow> Inr (unat b # cs))
      else Inl UnicodeDecodeError)"

text \<open>One 16-bit code unit as two bytes, and back, in a given byte order.\<close>

definition unit_bytes :: "byteorder \<Rightarrow> nat \<Rightarrow> byte list" where
  "unit_bytes bo u =
     (case bo of
        LittleEndian \<Rightarrow> [of_nat (u mod 256), of_nat (u div 256)]
      | BigEndian \<Rightarrow> [of_nat (u div 256), of_nat (u mod 256)])"

definition bytes_unit :: "byteorder \<Rightarrow> byte \<Rightarrow> byte \<Rightarrow> nat" where
  "bytes_unit bo b0 b1 =
     (case bo of
        LittleEndian \<Rightarrow> unat b0 + 256 * unat b1
      | BigEndian \<Rightarrow> 256 * unat b0 + unat b1)"

fun utf16_units :: "byteorder \<Rightarrow> pystring \<Rightarrow> pyerr + byte list" where
  "utf16_units bo [] = Inr []"
| "utf16_units bo (c # cs) =
     (if is_surrogate c \<or> 0x110000 \<le> c then Inl UnicodeEncodeError
      else
        (case utf16_units bo cs of
           Inl e \<Rightarrow> Inl e
         | Inr rest \<Rightarrow>
             if c < 0x10000 then Inr (unit_bytes bo c @ rest)
             else Inr (unit_bytes bo (0xD800 + (c - 0x10000) div 1024)
                       @ unit_bytes bo (0xDC00 + (c - 0x10000) mod 1024) @ rest)))"

definition utf16_encode :: "byteorder \<Rightarrow> pystring \<Rightarrow> pyerr + byte list" where
  "utf16_encode bo cs =
     (case utf16_units bo cs of
        Inl e \<Rightarrow> Inl e
      | Inr bs \<Rightarrow> Inr (unit_bytes bo 0xFEFF @ bs))"

text \<open>
  One code point from UTF-16 code units: a lone low surrogate, a high surrogate that
  is not followed by a low one, and a single trailing byte are errors.
\<close>

definition utf16_decode_cp :: "byteorder \<Rightarrow> byte \<Rightarrow> byte list \<Rightarrow> pyerr + nat \<times> byte list" where
  "utf16_decode_cp bo b0 bs =
     (case bs of
        [] \<Rightarrow> Inl UnicodeDecodeError
      | b1 # r1 \<Rightarrow>
          (let u = bytes_unit bo b0 b1 in
           if 0xDC00 \<le> u \<and> u \<le> 0xDFFF then Inl UnicodeDecodeError
           else if 0xD800 \<le> u \<and> u \<le> 0xDBFF then
             (case r1 of
                b2 # b3 # r \<Rightarrow>
                  (let v = bytes_unit bo b2 b3 in
                   if 0xDC00 \<le> v \<and> v \<le> 0xDFFF
                   then Inr (0x10000 + (u - 0xD800) * 1024 + (v - 0xDC00), r)
                   else Inl UnicodeDecodeError)
              | _ \<Rightarrow> Inl UnicodeDecodeError)
           else Inr (u, r1)))"

lemma utf16_decode_cp_shorter:
  "utf16_decode_cp bo b0 bs = Inr (c, rest) \<Longrightarrow> length rest \<le> length bs"
  unfolding utf16_decode_cp_def Let_def
  by (cases bs rule: remdups_adj.cases; cases "tl (tl bs)")
    (auto split: if_splits)

function (sequential) utf16_decode_units :: "byteorder \<Rightarrow> byte list \<Rightarrow> pyerr + pystring" where
  "utf16_decode_units bo [] = Inr []"
| "utf16_decode_units bo (b0 # bs) =
     (case utf16_decode_cp bo b0 bs of
        Inl e \<Rightarrow> Inl e
      | Inr (c, rest) \<Rightarrow>
          (case utf16_decode_units bo rest of Inl e \<Rightarrow> Inl e | Inr cs \<Rightarrow> Inr (c # cs)))"
  by pat_completeness auto
termination
  by (relation "measure (\<lambda>(bo, bs). length bs)") (auto dest: utf16_decode_cp_shorter)

definition utf16_decode :: "byteorder \<Rightarrow> byte list \<Rightarrow> pyerr + pystring" where
  "utf16_decode bo bs =
     (case bs of
        b0 # b1 # r \<Rightarrow>
          if b0 = 0xFF \<and> b1 = 0xFE then utf16_decode_units LittleEndian r
          else if b0 = 0xFE \<and> b1 = 0xFF then utf16_decode_units BigEndian r
          else utf16_decode_units bo bs
      | _ \<Rightarrow> utf16_decode_units bo bs)"

text \<open>\<open>text.encode(UTFX)\<close> and \<open>octets.decode(UTFX)\<close> for a codec named by a string.\<close>

definition str_encode :: "byteorder \<Rightarrow> pystring \<Rightarrow> pystring \<Rightarrow> pyerr + byte list" where
  "str_encode bo codec s =
     (if codec = pystr ''UTF-8'' then utf8_encode s
      else if codec = pystr ''UTF-16'' then utf16_encode bo s
      else if codec = pystr ''ascii'' then ascii_encode s
      else Inl LookupError)"

definition bytes_decode :: "byteorder \<Rightarrow> pystring \<Rightarrow> byte list \<Rightarrow> pyerr + pystring" where
  "bytes_decode bo codec bs =
     (if codec = pystr ''UTF-8'' then utf8_decode bs
      else if codec = pystr ''UTF-16'' then utf16_decode bo bs
      else if codec = pystr ''ascii'' then ascii_decode bs
      else Inl LookupError)"


section \<open>The base record's struct helpers (\<open>uNDEF.py\<close>)\<close>

text \<open>
  \<open>NDEFRecord._decode_struct(fmt, octets)\<close> at the one format the record types use,
  \<open>fmt = "B"\<close> with \<open>offset = 0\<close>: the format has no \<open>+\<close> and no \<open>*\<close>, so the loop
  runs once, unpacks one unsigned byte with \<open>struct.unpack_from(">B", octets, 0)\<close> and
  returns it as a single value. An exception of \<open>unpack_from\<close> is caught and raised
  again as a decode error whose message is the text of the caught exception (the text
  is chosen by the interpreter; MicroPython's is used here).
\<close>

definition decode_struct_B :: "byte list \<Rightarrow> pyerr + byte" where
  "decode_struct_B octets =
     (case octets of
        [] \<Rightarrow> Inl (NDEFdecodeError ''buffer too small'')
      | b # _ \<Rightarrow> Inr b)"

text \<open>
  The attribute \<open>_encode_struct\<close> of a base record. The base record of a text record
  is an \<open>NDEFRecord\<close> (it is what \<open>_decode\<close> hands to \<open>_decode_payload\<close>, and
  the only record class of the package). \<open>NDEFRecord\<close> defines \<open>_decode_struct\<close>
  but no \<open>_encode_struct\<close>, so looking the attribute up raises \<open>AttributeError\<close>;
  there is no packing function to return.
\<close>

definition NDEFRecord_encode_struct :: "pyerr + (nat \<Rightarrow> pyerr + byte list)" where
  "NDEFRecord_encode_struct = Inl AttributeError"

section \<open>Text records (\<open>ndeftext.py\<close>)\<close>

record text_record =
  tr_text :: pystring
  tr_language :: pystring
  tr_encoding :: pystring

text \<open>
  \<open>NDEFTextRecord.__init__\<close> with all three arguments given: the property setters
  run in the order text, language, encoding. The setters of \<open>language\<close> and
  \<open>encoding\<close> report a bad value through \<open>self._value_error\<close>, which the class does
  not define, so the failure that reaches the caller is \<open>AttributeError\<close>.
\<close>

definition NDEFTextRecord_init :: "pystring \<Rightarrow> pystring \<Rightarrow> pystring \<Rightarrow> pyerr + text_record" where
  "NDEFTextRecord_init text_arg language_arg encoding_arg =
     (if \<not> (0 < length language_arg \<and> length language_arg < 64) then Inl AttributeError
      else if encoding_arg \<noteq> pystr ''UTF-8'' \<and> encoding_arg \<noteq> pystr ''UTF-16''
      then Inl AttributeError
      else Inr \<lparr>tr_text = text_arg, tr_language = language_arg, tr_encoding = encoding_arg\<rparr>)"

text \<open>
  \<open>NDEFTextRecord._encode_payload\<close>. The language and the text are encoded first.
  In the call \<open>self._baserecord._encode_struct("B", ...)\<close> the attribute is looked
  up before the argument is evaluated, so the lookup's failure is the outcome of the
  method once both encodings have succeeded.
\<close>

definition text_encode_payload :: "byteorder \<Rightarrow> text_record \<Rightarrow> pyerr + byte list" where
  "text_encode_payload bo r =
     (let UTFX = tr_encoding r in
      case str_encode bo (pystr ''ascii'') (tr_language r) of
        Inl e \<Rightarrow> Inl e
      | Inr LANG \<Rightarrow>
          (case str_encode bo UTFX (tr_text r) of
             Inl e \<Rightarrow> Inl e
           | Inr TEXT \<Rightarrow>
               (case NDEFRecord_encode_struct of
                  Inl e \<Rightarrow> Inl e
                | Inr encode_struct \<Rightarrow>
                    (case encode_struct
                            (length LANG OR push_bit 7 (of_bool (UTFX = pystr ''UTF-16''))) of
                       Inl e \<Rightarrow> Inl e
                     | Inr FLAG \<Rightarrow> Inr (FLAG @ LANG @ TEXT)))))"

text \<open>
  \<open>NDEFTextRecord._decode_payload\<close>. The text starts at \<open>1 + len(LANG)\<close>, where
  \<open>LANG\<close> is already the decoded string. Only \<open>UnicodeDecodeError\<close> is caught.
\<close>

definition cant_be_decoded :: "pystring \<Rightarrow> pyerr" where
  "cant_be_decoded UTFX =
     NDEFdecodeError (''can'' @ [CHR 0x27] @ ''t be decoded as '' @ map char_of UTFX)"

definition text_decode_payload :: "byteorder \<Rightarrow> byte list \<Rightarrow> pyerr + text_record" where
  "text_decode_payload bo octets =
     (case decode_struct_B octets of
        Inl e \<Rightarrow> Inl e
      | Inr FLAG \<Rightarrow>
          if FLAG AND 0x3F = 0
          then Inl (NDEFdecodeError ''language code length can not be zero'')
          else if unat (FLAG AND 0x3F) \<ge> length octets
          then Inl (NDEFdecodeError ''language code length exceeds payload'')
          else
            (let UTFX = (if drop_bit 7 FLAG \<noteq> 0 then pystr ''UTF-16'' else pystr ''UTF-8'');
                 LANG_bytes = py_slice octets 1 (1 + unat (FLAG AND 0x3F))
             in case bytes_decode bo (pystr ''UTF-8'') LANG_bytes of
                  Inl e \<Rightarrow> (if e = UnicodeDecodeError then Inl (cant_be_decoded UTFX) else Inl e)
                | Inr LANG \<Rightarrow>
                    (case bytes_decode bo UTFX (drop (1 + length LANG) octets) of
                       Inl e \<Rightarrow>
                         (if e = UnicodeDecodeError then Inl (cant_be_decoded UTFX) else Inl e)
                     | Inr TEXT \<Rightarrow> NDEFTextRecord_init TEXT LANG UTFX)))"

section \<open>URI records (\<open>ndefuri.py\<close>)\<close>

definition prefix_strings :: "string list" where
  "prefix_strings =
     [[], ''http://www.'', ''https://www.'', ''http://'', ''https://'', ''tel:'',
      ''mailto:'', ''ftp://anonymous:anonymous@'', ''ftp://ftp.'', ''ftps://'',
      ''sftp://'', ''smb://'', ''nfs://'', ''ftp://'', ''dav://'', ''news:'',
      ''telnet://'', ''imap:'', ''rtsp://'', ''urn:'', ''pop:'', ''sip:'', ''sips:'',
      ''tftp:'', ''btspp://'', ''btl2cap://'', ''btgoep://'', ''tcpobex://'',
      ''irdaobex://'', ''file://'', ''urn:epc:id:'', ''urn:epc:tag:'', ''urn:epc:pat:'',
      ''urn:epc:raw:'', ''urn:epc:'', ''urn:nfc:'']"

text \<open>
  \<open>NDEFRecord._value_to_unicode(value, name)\<close> on a \<open>bytes\<close> value: ASCII decoding,
  and a \<open>ValueError\<close> when a byte is not ASCII (its message ends with the \<open>repr\<close> of
  the value, which the model leaves out).
\<close>

definition value_to_unicode :: "byte list \<Rightarrow> pyerr + pystring" where
  "value_to_unicode v =
     (case ascii_decode v of
        Inl _ \<Rightarrow> Inl (ValueError ''NDEFRecord: uri conversion requires ascii text, but got '')
      | Inr s \<Rightarrow> Inr s)"

text \<open>\<open>MicroUri.__init__\<close> with a \<open>uri\<close> argument: the setter converts it.\<close>

definition MicroUri_init :: "byte list \<Rightarrow> pyerr + pystring" where
  "MicroUri_init uri = value_to_unicode uri"

text \<open>
  \<open>MicroUri._decode_payload\<close>: \<open>stream.read(1)[0]\<close> raises \<open>IndexError\<close> on an empty
  payload, and so does the tuple lookup \<open>_prefix_strings[code]\<close> for a code beyond the
  table. A prefix is pure ASCII, so \<open>prefix.encode()\<close> is its bytes.
\<close>

definition uri_decode_payload :: "byte list \<Rightarrow> pyerr + pystring" where
  "uri_decode_payload octets =
     (case octets of
        [] \<Rightarrow> Inl IndexError
      | code # data \<Rightarrow>
          (case py_index prefix_strings (unat code) of
             Inl e \<Rightarrow> Inl e
           | Inr prefix \<Rightarrow> MicroUri_init (map of_char prefix @ data)))"


section \<open>NDEF record decoder (\<open>uNDEF.py\<close>, \<open>NDEFRecord._decode\<close>)\<close>

definition MAX_PAYLOAD_SIZE :: nat where "MAX_PAYLOAD_SIZE = 512"

datatype record_class = NDEFTextRecord | MicroUri

datatype ndef_value = TextValue text_record | UriValue pystring | UnknownValue

text \<open>
  The dictionary \<open>self.known_types\<close>, keyed by the \<open>_type\<close> strings of the two record
  classes, and the class attributes \<open>_decode_min_payload_length\<close> and
  \<open>_decode_max_payload_length\<close>.
\<close>

definition known_types :: "pystring \<Rightarrow> record_class option" where
  "known_types record_type =
     (if record_type = pystr ''urn:nfc:wkt:T'' then Some NDEFTextRecord
      else if record_type = pystr ''urn:nfc:wkt:U'' then Some MicroUri
      else None)"

definition decode_min_payload_length :: "record_class \<Rightarrow> nat" where
  "decode_min_payload_length cls = (case cls of NDEFTextRecord \<Rightarrow> 1 | MicroUri \<Rightarrow> 1)"

definition decode_max_payload_length :: "record_class \<Rightarrow> nat" where
  "decode_max_payload_length cls = (case cls of NDEFTextRecord \<Rightarrow> 512 | MicroUri \<Rightarrow> 512)"

text \<open>\<open>record_cls._decode_payload(self, PAYLOAD)\<close>.\<close>

definition class_decode_payload :: "byteorder \<Rightarrow> record_class \<Rightarrow> byte list \<Rightarrow> pyerr + ndef_value" where
  "class_decode_payload bo cls PAYLOAD =
     (case cls of
        NDEFTextRecord \<Rightarrow>
          (case text_decode_payload bo PAYLOAD of Inl e \<Rightarrow> Inl e | Inr r \<Rightarrow> Inr (TextValue r))
      | MicroUri \<Rightarrow>
          (case uri_decode_payload PAYLOAD of Inl e \<Rightarrow> Inl e | Inr u \<Rightarrow> Inr (UriValue u)))"

text \<open>\<open>NDEFRecord._decode_type(TNF, TYPE)\<close>; \<open>TYPE.decode()\<close> is strict UTF-8.\<close>

definition type_prefix :: "string list" where
  "type_prefix = [[], ''urn:nfc:wkt:'', [], [], ''urn:nfc:ext:'', ''unknown'', ''unchanged'']"

definition decode_type :: "nat \<Rightarrow> byte list \<Rightarrow> pyerr + pystring" where
  "decode_type TNF TYPE_field =
     (if \<not> TNF \<le> 6 then Inl (ValueError ''NDEFRecord: NDEF Record TNF values must be 0 to 6'')
      else
        (case utf8_decode (if TNF \<in> {0, 5, 6} then [] else TYPE_field) of
           Inl e \<Rightarrow> Inl e
         | Inr t \<Rightarrow> Inr (pystr (type_prefix ! TNF) @ t)))"

text \<open>
  The length fields: \<open>struct.unpack(">B" + ("B" if SR else "L") + ("B" if IL else ""), data)\<close>
  on the bytes read, followed by \<open>(0,)\<close>. The tuple is a list; with \<open>IL\<close> clear its
  third element is the appended 0. A short read makes \<open>struct.unpack\<close> raise, and
  every exception of this block becomes the decode error of the source.
\<close>

definition unpack_BE_L :: "byte list \<Rightarrow> nat" where
  "unpack_BE_L bs = foldl (\<lambda>acc b. 256 * acc + unat b) 0 bs"

definition read_length_fields :: "bool \<Rightarrow> bool \<Rightarrow> bytesio \<Rightarrow> pyerr + nat list \<times> bytesio" where
  "read_length_fields SR IL stream =
     (let size = 1 + (if SR then 1 else 4) + (if IL then 1 else 0);
          r = bio_read stream size;
          data = fst r
      in if length data \<noteq> size
         then Inl (NDEFdecodeError ''buffer underflow at reading length fields'')
         else Inr ([unat (data ! 0),
                    (if SR then unat (data ! 1) else unpack_BE_L (py_slice data 1 5))]
                   @ (if IL then [unat (data ! (size - 1))] else []) @ [0],
                   snd r))"

text \<open>
  The assertions on the fields, in the order of the source; the result is the message
  of the first assertion that fails.
\<close>

definition check_fields :: "nat \<Rightarrow> nat list \<Rightarrow> string option" where
  "check_fields TNF flds =
     (if TNF \<in> {0, 5, 6} \<and> flds ! 0 \<noteq> 0 then Some ''TYPE_LENGTH must be 0''
      else if TNF = 0 \<and> flds ! 2 \<noteq> 0 then Some ''ID_LENGTH must be 0''
      else if TNF = 0 \<and> flds ! 1 \<noteq> 0 then Some ''PAYLOAD_LENGTH must be 0''
      else if TNF \<in> {1, 2, 3, 4} \<and> flds ! 0 = 0 then Some ''TYPE_LENGTH must be > 0''
      else None)"

text \<open>
  \<open>self._decode_error(str(error) + " for TNF value {}", TNF)\<close>: the placeholder is
  filled only when the second argument is truthy, so for \<open>TNF = 0\<close> the braces stay
  in the message.
\<close>

definition fields_error :: "string \<Rightarrow> nat \<Rightarrow> pyerr" where
  "fields_error msg TNF =
     NDEFdecodeError (msg @ '' for TNF value ''
                      @ (if TNF = 0 then ''{}'' else [char_of (48 + TNF)]))"

record ndef_fields =
  f_TNF :: nat
  f_MB :: bool
  f_ME :: bool
  f_CF :: bool
  f_TYPE :: "byte list"
  f_ID :: "byte list"
  f_PAYLOAD :: "byte list"

text \<open>
  The first part of \<open>_decode\<close>: header octet, length fields, the checks on them and
  the three variable-length fields. \<open>ord\<close> of the empty byte string that \<open>read(1)\<close>
  returns at the end of the stream raises \<open>TypeError\<close>, which the handler for
  \<open>IndexError\<close> does not catch.
\<close>

definition decode_fields :: "bytesio \<Rightarrow> pyerr + ndef_fields \<times> bytesio" where
  "decode_fields stream =
     (let r0 = bio_read stream 1 in
      case fst r0 of
        [] \<Rightarrow> Inl TypeError
      | octet0 # _ \<Rightarrow>
          (let MB = (octet0 AND 0b10000000 \<noteq> 0);
               ME = (octet0 AND 0b01000000 \<noteq> 0);
               CF = (octet0 AND 0b00100000 \<noteq> 0);
               SR = (octet0 AND 0b00010000 \<noteq> 0);
               IL = (octet0 AND 0b00001000 \<noteq> 0);
               TNF = unat (octet0 AND 0b00000111)
           in if TNF = 7
              then Inl (NDEFdecodeError ''TNF field value must be between 0 and 6'')
              else
                (case read_length_fields SR IL (snd r0) of
                   Inl e \<Rightarrow> Inl e
                 | Inr (flds, s1) \<Rightarrow>
                     (case check_fields TNF flds of
                        Some msg \<Rightarrow> Inl (fields_error msg TNF)
                      | None \<Rightarrow>
                          if flds ! 1 > MAX_PAYLOAD_SIZE
                          then Inl (NDEFdecodeError
                                      ''payload of more than 512 octets can not be decoded'')
                          else
                            (let rT = bio_read s1 (flds ! 0);
                                 rI = bio_read (snd rT) (flds ! 2);
                                 rP = bio_read (snd rI) (flds ! 1)
                             in if flds ! 0 \<noteq> length (fst rT)
                                then Inl (NDEFdecodeError ''buffer underflow at reading TYPE field'')
                                else if flds ! 2 \<noteq> length (fst rI)
                                then Inl (NDEFdecodeError ''buffer underflow at reading ID field'')
                                else if flds ! 1 \<noteq> length (fst rP)
                                then Inl (NDEFdecodeError
                                            ''buffer underflow at reading PAYLOAD field'')
                                else Inr (\<lparr>f_TNF = TNF, f_MB = MB, f_ME = ME, f_CF = CF,
                                           f_TYPE = fst rT, f_ID = fst rI, f_PAYLOAD = fst rP\<rparr>,
                                          snd rP))))))"

text \<open>
  The second part of \<open>_decode\<close>: type resolution and dispatch. The two length checks
  against the class limits only \<open>print\<close>; the printed lines are the first component of
  the result. The second component is the exception raised or the returned tuple
  \<open>(record, MB, ME, CF)\<close> with the stream.
\<close>

definition length_warnings :: "record_class \<Rightarrow> byte list \<Rightarrow> string list" where
  "length_warnings cls PAYLOAD =
     (if length PAYLOAD < decode_min_payload_length cls
      then [''payload length can not be less than {}''] else [])
     @ (if length PAYLOAD > decode_max_payload_length cls
        then [''payload length can not be more than {}''] else [])"

definition NDEFRecord_decode ::
  "byteorder \<Rightarrow> bytesio \<Rightarrow> string list \<times> (pyerr + (ndef_value \<times> bool \<times> bool \<times> bool) \<times> bytesio)" where
  "NDEFRecord_decode bo stream =
     (case decode_fields stream of
        Inl e \<Rightarrow> ([], Inl e)
      | Inr (f, s) \<Rightarrow>
          (case decode_type (f_TNF f) (f_TYPE f) of
             Inl e \<Rightarrow> ([], Inl e)
           | Inr record_type \<Rightarrow>
               (case known_types record_type of
                  Some record_cls \<Rightarrow>
                    (length_warnings record_cls (f_PAYLOAD f),
                     (case class_decode_payload bo record_cls (f_PAYLOAD f) of
                        Inl e \<Rightarrow> Inl e
                      | Inr record \<Rightarrow> Inr ((record, f_MB f, f_ME f, f_CF f), s)))
                | None \<Rightarrow> ([], Inr ((UnknownValue, f_MB f, f_ME f, f_CF f), s)))))"


section \<open>Sample directories\<close>

text \<open>
  Two 32-byte directories that differ only in the AID entry of sector 3 (bytes 6 and 7).
\<close>

definition mad_E1_03 :: "byte list" where
  "mad_E1_03 = [0x00, 0x00, 0x00, 0x00, 0x00, 0x00, 0xE1, 0x03] @ replicate 24 0x00"

definition mad_03_E1 :: "byte list" where
  "mad_03_E1 = [0x00, 0x00, 0x00, 0x00, 0x00, 0x00, 0x03, 0xE1] @ replicate 24 0x00"

section \<open>Sample text record\<close>

definition hello_record :: text_record where
  "hello_record = \<lparr>tr_text = pystr ''hello'', tr_language = pystr ''en'', tr_encoding = pystr ''UTF-8''\<rparr>"

definition hello_payload :: "byte list" where
  "hello_payload = [0x02, 0x65, 0x6E, 0x68, 0x65, 0x6C, 0x6C, 0x6F]"

section \<open>The header errors and invariants named by the specification\<close>

text \<open>
  The three failures of the header stage. A field-invariant failure is one of the four
  assertion messages, completed by \<open>_decode_error\<close> for a TNF value in \<open>0..6\<close>.
\<close>

definition invalid_tnf_error :: pyerr where
  "invalid_tnf_error = NDEFdecodeError ''TNF field value must be between 0 and 6''"

definition payload_too_large_error :: pyerr where
  "payload_too_large_error = NDEFdecodeError ''payload of more than 512 octets can not be decoded''"

definition field_invariant_errors :: "pyerr list" where
  "field_invariant_errors =
     concat (map (\<lambda>msg. map (fields_error msg) [0, 1, 2, 3, 4, 5, 6])
               [''TYPE_LENGTH must be 0'', ''ID_LENGTH must be 0'',
                ''PAYLOAD_LENGTH must be 0'', ''TYPE_LENGTH must be > 0''])"

text \<open>
  The field invariants in the words of the specification: for TNF 0, 5 and 6 the type
  length is 0; for TNF 0 the ID length and the payload length are 0; for TNF 1 to 4 the
  type length is positive. The arguments are the type, payload and ID lengths.
\<close>

definition field_invariants :: "nat \<Rightarrow> nat \<Rightarrow> nat \<Rightarrow> nat \<Rightarrow> bool" where
  "field_invariants TNF type_length payload_length id_length =
     ((if TNF \<in> {0, 5, 6} then type_length = 0 else True)
      \<and> (if TNF = 0 then id_length = 0 \<and> payload_length = 0 else True)
      \<and> (if TNF \<in> {1, 2, 3, 4} then 0 < type_length else True))"

text \<open>A header with TNF 1, type length 0 and the four-byte payload length 513.\<close>

definition long_payload_without_type :: bytesio where
  "long_payload_without_type = \<lparr>content = [0x01, 0x00, 0x00, 0x00, 0x02, 0x01], pos = 0\<rparr>"

text \<open>A short text record with an empty payload: header \<open>D1\<close>, type length 1, payload length 0, type "T".\<close>

definition empty_text_record :: bytesio where
  "empty_text_record = \<lparr>content = [0xD1, 0x01, 0x00, 0x54], pos = 0\<rparr>"

text \<open>A header with TNF 1, type length 1 and the four-byte payload length 513.\<close>

definition long_payload_with_type :: bytesio where
  "long_payload_with_type = \<lparr>content = [0x01, 0x01, 0x00, 0x00, 0x02, 0x01], pos = 0\<rparr>"

text \<open>
  A text record that announces 513 payload bytes: header \<open>C1\<close> (long form), type
  length 1, payload length \<open>00 00 02 01\<close>, type "T" and 513 payload bytes.
\<close>

definition oversize_text_record :: bytesio where
  "oversize_text_record =
     \<lparr>content = [0xC1, 0x01, 0x00, 0x00, 0x02, 0x01, 0x54] @ 0x02 # 0x65 # 0x6E # replicate 510 0x61,
      pos = 0\<rparr>"

section \<open>The TLV length forms and the unread part of a stream\<close>



text \<open>
  \<open>mad.set_mad_data(data)\<close> followed by the test \<open>k in mad.NFCSectors\<close>, as
  \<open>find_wr_sectors\<close> makes it.
\<close>

definition is_nfc_sector :: "byteorder \<Rightarrow> byte list \<Rightarrow> nat \<Rightarrow> bool" where
  "is_nfc_sector bo data k =
     (case set_mad_data bo data of Inl e \<Rightarrow> False | Inr m \<Rightarrow> k \<in> set (NFCSectors bo m))"

text \<open>A short URI record whose payload starts with the prefix code 36: header \<open>D1\<close>, type "U".\<close>

definition uri_record_code_36 :: bytesio where
  "uri_record_code_36 = \<lparr>content = [0xD1, 0x01, 0x02, 0x55, 0x24, 0x61], pos = 0\<rparr>"

section \<open>The frame layout of the specification\<close>

text \<open>
  The frame in the words of the data model: preamble \<open>00\<close>, start code \<open>00 FF\<close>,
  the length, the length checksum (the two's complement of the length), the data, the
  data checksum (which brings the sum of the data bytes and itself to 0 modulo 256) and
  the postamble \<open>00\<close>. Arithmetic on \<open>byte\<close> is modulo 256.
\<close>

definition frame_of :: "byte list \<Rightarrow> byte list" where
  "frame_of data =
     [0x00, 0x00, 0xFF, of_nat (length data), - of_nat (length data)] @ data
     @ [- sum_list data, 0x00]"

section \<open>Frame codec: encoding and decoding\<close>

lemma word8_of_int_and_255: "(word_of_int (k AND 0xFF) :: byte) = word_of_int k"
proof -
  have "k AND 0xFF = take_bit 8 k" by (simp add: take_bit_eq_mask mask_eq_exp_minus_1)
  then show ?thesis by (simp add: word_of_int_eq_iff)
qed

lemma and_255_zero_iff: "(k AND (0xFF::int)) = 0 \<longleftrightarrow> (word_of_int k :: byte) = 0"
proof -
  have "k AND 0xFF = take_bit 8 k" by (simp add: take_bit_eq_mask mask_eq_exp_minus_1)
  then show ?thesis by (simp add: word_of_int_eq_0_iff take_bit_eq_0_iff) 
qed

lemma word_of_py_sum: "(word_of_int (py_sum bs) :: byte) = sum_list bs"
  by (induction bs) (simp_all add: py_sum_def)

lemma replicate_plus8: "replicate (n + 8) x = x # x # x # x # x # replicate (n + 3) x"
  by (simp add: numeral_eq_Suc)

lemma upd_after5: "(a # b # c # d # e # xs @ ys)[length xs + k + 5 := y] = a # b # c # d # e # xs @ ys[k := y]"
proof -
  have "(([a, b, c, d, e] @ xs) @ ys)[length xs + k + 5 := y] = ([a, b, c, d, e] @ xs) @ ys[k := y]"
    by (subst list_update_append) simp
  then show ?thesis by simp
qed

lemma drop_after5: "drop (6 + n) (a # b # c # d # e # replicate (n + 3) x) = [x, x]"
proof -
  have r: "replicate (n + 3) x = replicate (n + 1) x @ [x, x]"
    using replicate_add [of "n + 1" 2 x] by (simp add: numeral_eq_Suc)
  have "drop (6 + n) (([a, b, c, d, e] @ replicate (n + 1) x) @ [x, x]) = [x, x]"
    by (subst drop_append) simp
  then show ?thesis by (simp add: r)
qed

lemma write_frame_shape:
  assumes "1 < length data" "length data < 255"
  shows "write_frame data = Inr (frame_of data)"
proof -
  define n where "n = length data"
  define L :: byte where "L = word_of_int (int n AND 0xFF)"
  define C :: byte where "C = word_of_int ((NOT (int n) + 1) AND 0xFF)"
  define D :: byte where "D = word_of_int (NOT (py_sum (py_slice ((replicate (n + 8) (0 :: byte))[0 := PREAMBLE, 1 := STARTCODE1, 2 := STARTCODE2]) 0 3) + py_sum data) AND 0xFF)"
  define f3 where "f3 = (replicate (n + 8) (0 :: byte))[0 := PREAMBLE, 1 := STARTCODE1, 2 := STARTCODE2, 3 := L, 4 := C]"
  define f4 where "f4 = take 5 f3 @ data @ drop (length f3 - 2) f3"
  have f3: "f3 = 0 # 0 # 0xFF # L # C # replicate (n + 3) 0"
    by (simp add: f3_def replicate_plus8 PREAMBLE_def STARTCODE1_def STARTCODE2_def)
  have f4: "f4 = 0 # 0 # 0xFF # L # C # data @ [0, 0]"
    using drop_after5 [of n 0 0 "0xFF" L C "0 :: byte"]
    by (simp add: f4_def f3 add.commute)
  have len4: "length f4 - 2 = n + 0 + 5" by (simp add: f4 n_def)
  have f5: "f4[length f4 - 2 := D] = 0 # 0 # 0xFF # L # C # data @ [D, 0]"
    unfolding len4 unfolding f4 n_def by (subst upd_after5) simp
  have len5: "length (f4[length f4 - 2 := D]) - 1 = n + 1 + 5" by (simp add: f4 n_def)
  have f6: "(f4[length f4 - 2 := D])[length (f4[length f4 - 2 := D]) - 1 := POSTAMBLE]
              = 0 # 0 # 0xFF # L # C # data @ [D, 0]"
    unfolding len5 unfolding f5 n_def by (subst upd_after5) (simp add: POSTAMBLE_def)
  have cs0: "py_sum (py_slice ((replicate (n + 8) (0 :: byte))[0 := PREAMBLE, 1 := STARTCODE1, 2 := STARTCODE2]) 0 3) = 255"
    by (simp add: py_slice_def replicate_plus8 PREAMBLE_def STARTCODE1_def STARTCODE2_def py_sum_def)
  have "NOT (255 + py_sum data) = - py_sum data - 256" by (simp add: not_int_def)
  moreover have "(word_of_int (- py_sum data - 256) :: byte) = word_of_int (- py_sum data)"
    by (simp add: word_of_int_eq_iff take_bit_eq_mod)
  ultimately have "(word_of_int (NOT (255 + py_sum data)) :: byte) = - sum_list data"
    by (simp add: word_of_py_sum)
  then have D: "D = - sum_list data"
    unfolding D_def cs0 by (simp add: word8_of_int_and_255)
  have L: "L = of_nat n" by (simp add: L_def word8_of_int_and_255)
  have C: "C = - of_nat n" by (simp add: C_def word8_of_int_and_255 not_int_def)
  have c: "(\<not> (1 < length data \<and> length data < 255)) = False" using assms by simp
  have "write_frame data = Inr ((f4[length f4 - 2 := D])[length (f4[length f4 - 2 := D]) - 1 := POSTAMBLE])"
    unfolding write_frame_def Let_def f4_def f3_def D_def L_def C_def n_def
    by (simp only: c if_False)
  then show ?thesis
    by (simp only: f6) (simp add: frame_of_def L C D n_def)
qed


lemma swallow_zeros_frame: "swallow_zeros (0 # 0 # 0xFF # bs) 0 = Inr 2"
proof -
  have "swallow_zeros (0 # 0 # 0xFF # bs) 2 = Inr 2"
    by (subst swallow_zeros.simps) simp
  then have "swallow_zeros (0 # 0 # 0xFF # bs) 1 = Inr 2"
    by (subst swallow_zeros.simps) (simp add: numeral_2_eq_2)
  then show ?thesis
    by (subst swallow_zeros.simps) simp
qed

lemma len_checksum_iff: "((int (unat l) + uint c) AND 0xFF = 0) \<longleftrightarrow> l + c = (0 :: byte)"
  by (simp add: and_255_zero_iff)

lemma parse_frame_cases:
  "parse_frame (0 # 0 # 0xFF # l # c # body) =
     (if l + c \<noteq> 0 then Inl (RuntimeError ''Response length checksum did not match length!'')
      else if sum_list (take (unat l + 1) body) \<noteq> 0
      then Inl (RuntimeErrorArg ''Response checksum did not match expected value: ''
                  (py_sum (take (unat l + 1) body) AND 0xFF))
      else Inr (take (unat l) body))"
proof -
  have nth2: "(0 # 0 # 0xFF # l # c # body) ! 2 = 0xFF" by (simp add: numeral_2_eq_2)
  have nth3: "(0 # 0 # 0xFF # l # c # body) ! 3 = l" by (simp add: numeral_3_eq_3)
  have nth4: "(0 # 0 # 0xFF # l # c # body) ! 4 = c" by (simp add: numeral_eq_Suc)
  have sl: "\<And>j. py_slice (0 # 0 # 0xFF # l # c # body) 5 j = take (j - 5) body"
    by (simp add: py_slice_def numeral_eq_Suc)
  have cs: "\<And>xs. (py_sum xs AND 0xFF = 0) \<longleftrightarrow> sum_list xs = (0 :: byte)"
    by (simp add: and_255_zero_iff word_of_py_sum)
  show ?thesis
    unfolding parse_frame_def swallow_zeros_frame
    by (simp add: Let_def nth2 nth3 nth4 sl cs len_checksum_iff del: of_nat_unat)
qed

lemma frame_of_parse:
  assumes "length data < 255"
  shows "parse_frame (frame_of data @ rest) = Inr data"
proof -
  have u: "unat (of_nat (length data) :: byte) = length data"
    using assms by (simp add: unat_of_nat)
  have s: "sum_list (data @ [- sum_list data]) = (0 :: byte)" by simp
  show ?thesis
    unfolding frame_of_def by (simp add: parse_frame_cases u del: sum_list_append) (simp)
qed


lemma sum_list_update_word:
  fixes xs :: "byte list"
  shows "j < length xs \<Longrightarrow> sum_list (xs[j := v]) = sum_list xs - xs ! j + v"
proof (induction xs arbitrary: j)
  case Nil
  then show ?case by simp
next
  case (Cons x xs)
  then show ?case by (cases j) simp_all
qed

lemma flip_bit_neq:
  fixes b :: byte
  assumes "k < 8"
  shows "b XOR push_bit k 1 \<noteq> b"
proof
  assume "b XOR push_bit k 1 = b"
  then have "bit (b XOR push_bit k 1) k = bit b k" by simp
  then show False using assms by (simp add: bit_xor_iff bit_push_bit_iff bit_exp_iff)
qed

lemma update_ge5:
  "5 \<le> i \<Longrightarrow> (a # b # c # d # e # xs)[i := v] = a # b # c # d # e # xs[i - 5 := v]"
proof -
  assume "5 \<le> i"
  then obtain j where i: "i = Suc (Suc (Suc (Suc (Suc j))))"
    by (metis add_Suc_right le_Suc_ex numeral_eq_Suc pred_numeral_simps(2,3) semiring_norm(26,27) add_0_right eval_nat_numeral(3) add_Suc)
  show ?thesis unfolding i by simp
qed

lemma flipped_frame_fails:
  assumes len: "length p < 255" and i: "3 \<le> i" "i \<le> length p + 5" and k: "k < 8"
  shows "parse_frame ((frame_of p)[i := frame_of p ! i XOR push_bit k 1] @ idle)
           = Inl (RuntimeError ''Response length checksum did not match length!'')
       \<or> (\<exists>c. parse_frame ((frame_of p)[i := frame_of p ! i XOR push_bit k 1] @ idle)
           = Inl (RuntimeErrorArg ''Response checksum did not match expected value: '' c))"
proof -
  define L :: byte where "L = of_nat (length p)"
  define D :: byte where "D = - sum_list p"
  define m :: byte where "m = push_bit k 1"
  have fr: "frame_of p = 0 # 0 # 0xFF # L # - L # p @ [D, 0]"
    by (simp add: frame_of_def L_def D_def)
  have flip: "\<And>b :: byte. b XOR m \<noteq> b" unfolding m_def using flip_bit_neq [OF k] .
  have u: "unat L = length p" using len by (simp add: L_def unat_of_nat)
  consider "i = 3" | "i = 4" | "5 \<le> i" using i by linarith
  then show ?thesis
  proof cases
    case 1
    have "(L XOR m) + - L \<noteq> 0" using flip [of L] by simp
    then show ?thesis
      unfolding fr m_def [symmetric] 1 by (simp add: numeral_3_eq_3 parse_frame_cases)
  next
    case 2
    have "L + (- L XOR m) \<noteq> 0" using flip [of "- L"]
      by (metis add.inverse_unique)
    moreover have "(0 # 0 # 0xFF # L # - L # p @ [D, 0])[4 := (0 # 0 # 0xFF # L # - L # p @ [D, 0]) ! 4 XOR m]
        = 0 # 0 # 0xFF # L # (- L XOR m) # p @ [D, 0]"
      by (simp add: numeral_eq_Suc)
    ultimately show ?thesis
      unfolding fr m_def [symmetric] 2 by (simp add: parse_frame_cases)
  next
    case 3
    define j where "j = i - 5"
    have j: "j < length (p @ [D])" using i 3 by (simp add: j_def)
    have nth: "(0 # 0 # 0xFF # L # - L # p @ [D, 0]) ! i = (p @ [D]) ! j"
    proof -
      have "(([0, 0, 0xFF, L, - L] @ (p @ [D])) @ [0]) ! (5 + j) = (p @ [D]) ! j"
        using j by (simp add: nth_append)
      moreover have "i = 5 + j" using 3 by (simp add: j_def)
      ultimately show ?thesis by simp
    qed
    define v where "v = (p @ [D]) ! j XOR m"
    have upd: "(0 # 0 # 0xFF # L # - L # p @ [D, 0])[i := v] = 0 # 0 # 0xFF # L # - L # ((p @ [D])[j := v] @ [0])"
    proof -
      have a: "(p @ [D, 0])[j := v] = (p @ [D])[j := v] @ [0]"
        using j list_update_append1 [of j "p @ [D]" "[0]" v] by simp
      have "(0 # 0 # 0xFF # L # - L # p @ [D, 0])[i := v] = 0 # 0 # 0xFF # L # - L # (p @ [D, 0])[i - 5 := v]"
        by (rule update_ge5 [OF 3])
      then show ?thesis unfolding j_def [symmetric] a .
    qed
    have tk: "take (unat L + 1) (((p @ [D])[j := v] @ [0]) @ idle) = (p @ [D])[j := v]"
      by (simp add: u)
    have "sum_list ((p @ [D])[j := v]) = sum_list (p @ [D]) - (p @ [D]) ! j + v"
      using sum_list_update_word [OF j] .
    also have "\<dots> = v - (p @ [D]) ! j" by (simp add: D_def)
    finally have "sum_list ((p @ [D])[j := v]) \<noteq> 0"
      using flip [of "(p @ [D]) ! j"] by (simp add: v_def)
    then have "parse_frame ((0 # 0 # 0xFF # L # - L # ((p @ [D])[j := v] @ [0])) @ idle) =
       Inl (RuntimeErrorArg ''Response checksum did not match expected value: ''
                  (py_sum ((p @ [D])[j := v]) AND 0xFF))"
      using tk by (simp add: parse_frame_cases del: take_append)
    then show ?thesis
      unfolding fr m_def [symmetric] nth v_def [symmetric] upd by blast
  qed
qed

text \<open>
  For a payload that the encoder accepts (2 to 254 bytes), decoding the frame it builds,
  followed by whatever idle bytes the bus delivers, gives the payload back.
\<close>

lemma frame_roundtrip_accepted:
  assumes "1 < length p" and "length p < 255"
    and "read_data (length p + 8) = frame_of p @ idle"
  shows "write_frame p = Inr (frame_of p) \<and> read_frame read_data (length p) = Inr p"
  using assms by (simp add: write_frame_shape read_frame_def frame_of_parse)

text \<open>
  Claim C2 (frame round-trip for every payload of 1 to 254 bytes). The assertion of
  \<open>_write_frame\<close> is \<open>1 < len(data) < 255\<close>, while its own message promises
  "1 to 255 bytes": a payload of one byte is rejected before any frame is built, so
  there is nothing to decode.
\<close>

theorem write_frame_rejects_single_byte:
  "write_frame [b] = Inl (AssertionError ''Data must be array of 1 to 255 bytes.'')"
  by (simp add: write_frame_def)

text \<open>
  Claim C9 (checksum sensitivity). Let \<open>frame\<close> be the frame built for a payload that
  the encoder accepts. Flipping bit \<open>k\<close> of the byte at position \<open>i\<close>, where \<open>i\<close>
  ranges over LEN (3), the length checksum (4), the data bytes and the data checksum
  (\<open>length p + 5\<close>), makes \<open>_read_frame\<close> raise the length-checksum error or the
  data-checksum error; it never returns data.
\<close>

theorem checksum_sensitivity:
  assumes enc: "write_frame p = Inr frame"
    and i: "3 \<le> i" "i \<le> length p + 5" and k: "k < 8"
    and bus: "read_data (length p + 8) = frame[i := frame ! i XOR push_bit k 1] @ idle"
  shows "read_frame read_data (length p)
           = Inl (RuntimeError ''Response length checksum did not match length!'')
       \<or> (\<exists>c. read_frame read_data (length p)
           = Inl (RuntimeErrorArg ''Response checksum did not match expected value: '' c))"
proof -
  have len: "1 < length p \<and> length p < 255"
    using enc by (auto simp: write_frame_def split: if_splits)
  then have "frame = frame_of p" using enc by (simp add: write_frame_shape)
  then show ?thesis
    using flipped_frame_fails [of p i k idle] len i k bus by (simp add: read_frame_def)
qed

theorem checksum_sensitivity_witness:
  "write_frame [0xD4, 0x02] = Inr [0x00, 0x00, 0xFF, 0x02, 0xFE, 0xD4, 0x02, 0x2A, 0x00]
   \<and> read_frame (\<lambda>n. [0x00, 0x00, 0xFF, 0x02, 0xFE, 0xD5, 0x02, 0x2A, 0x00, 0x00]) 2
       = Inl (RuntimeErrorArg ''Response checksum did not match expected value: '' 1)"
proof -
  have enc: "write_frame [0xD4, 0x02] = Inr [0x00, 0x00, 0xFF, 0x02, 0xFE, 0xD4, 0x02, 0x2A, 0x00]"
    by (simp add: write_frame_shape frame_of_def)
  have bus: "(\<lambda>n::nat. [0x00, 0x00, 0xFF, 0x02, 0xFE, 0xD5, 0x02, 0x2A, 0x00, 0x00 :: byte]) (length [0xD4, 0x02 :: byte] + 8)
      = [0x00, 0x00, 0xFF, 0x02, 0xFE, 0xD4, 0x02, 0x2A, 0x00][5 := [0x00, 0x00, 0xFF, 0x02, 0xFE, 0xD4, 0x02, 0x2A, 0x00] ! 5 XOR push_bit 0 1] @ [0x00]"
    by (simp add: numeral_eq_Suc)
  have "parse_frame [0x00, 0x00, 0xFF, 0x02, 0xFE, 0xD5, 0x02, 0x2A, 0x00, 0x00]
      = Inl (RuntimeErrorArg ''Response checksum did not match expected value: '' 1)"
    by (simp add: parse_frame_cases py_sum_def)
  then show ?thesis
    using checksum_sensitivity [OF enc _ _ _ bus] enc by (simp add: read_frame_def)
qed


section \<open>Mifare memory model: frame of \<open>get_block\<close>\<close>

lemma block_window_assign:
  assumes "length memory = 1024" and "k < 64" and "length d = 16"
  shows "assign_block memory (int k) d
           = Inr (take (16 * k) memory @ d @ drop (16 * k + 16) memory)"
  using assms
  by (simp add: assign_block_def block_window_def py_slice_def nblocks_def nsectors_def
      mult.commute)

lemma block_window_of_assigned:
  assumes "length memory = 1024" and "k < 64" and "length d = 16"
  shows "block_window (take (16 * k) memory @ d @ drop (16 * k + 16) memory) k = d"
  using assms by (simp add: block_window_def py_slice_def nsectors_def mult.commute)

lemma assigned_outside:
  assumes "length memory = 1024" and "k < 64" and "length d = 16"
    and "i < 16 * k \<or> 16 * k + 16 \<le> i" and "i < 1024"
  shows "(take (16 * k) memory @ d @ drop (16 * k + 16) memory) ! i = memory ! i"
proof (cases "i < 16 * k")
  case True
  then show ?thesis using assms by (simp add: nth_append)
next
  case False
  then have ge: "16 * k + 16 \<le> i" using assms by simp
  have "(take (16 * k) memory @ d @ drop (16 * k + 16) memory) ! i
          = drop (16 * k + 16) memory ! (i - (16 * k + 16))"
  proof -
    have "\<not> i < 16 * k" "\<not> i - 16 * k < 16" "i - 16 * k - 16 = i - (16 * k + 16)"
      using ge by simp_all
    then show ?thesis using assms by (simp add: nth_append)
  qed
  also have "\<dots> = memory ! i" using assms ge by simp
  finally show ?thesis .
qed

text \<open>
  Claim C7 (frame effect of \<open>get_block\<close>). For a block index \<open>n\<close> in \<open>0..63\<close> and
  the 1024-byte image: when the live read returns \<open>None\<close>, or data whose length is
  not 16, the image is unchanged and the cached 16 bytes of block \<open>n\<close> are returned;
  when the read returns exactly 16 bytes, these bytes become block \<open>n\<close>, they are
  returned, and every byte outside block \<open>n\<close> keeps its value.
\<close>

theorem get_block_frame:
  assumes mem: "length memory = 1024" and n: "0 \<le> n" "n \<le> 63"
  shows "(read_mifare_classic n = Inr None
            \<or> (\<exists>d. read_mifare_classic n = Inr (Some d) \<and> length d \<noteq> 16)
          \<longrightarrow> get_block memory (Some read_mifare_classic) n
                = Inr (memory, py_slice memory (16 * nat n) (16 * nat n + 16)))
       \<and> (\<forall>d. read_mifare_classic n = Inr (Some d) \<and> length d = 16
          \<longrightarrow> (\<exists>memory'. get_block memory (Some read_mifare_classic) n = Inr (memory', d)
                \<and> length memory' = 1024
                \<and> py_slice memory' (16 * nat n) (16 * nat n + 16) = d
                \<and> (\<forall>i < 1024. i < 16 * nat n \<or> 16 * nat n + 16 \<le> i
                      \<longrightarrow> memory' ! i = memory ! i)))"
proof -
  define k where "k = nat n"
  have k: "k < 64" "n = int k" using n by (simp_all add: k_def)
  have blk: "\<And>m. block m n = Inr (py_slice m (16 * k) (16 * k + 16))"
    using k by (simp add: block_def block_window_def nblocks_def nsectors_def mult.commute)
  have guard: "\<not> n > int nblocks - 1" using n by (simp add: nblocks_def)
  have stale: "read_mifare_classic n = Inr None
            \<or> (\<exists>d. read_mifare_classic n = Inr (Some d) \<and> length d \<noteq> 16)
          \<Longrightarrow> get_block memory (Some read_mifare_classic) n
                = Inr (memory, py_slice memory (16 * k) (16 * k + 16))"
    using guard by (auto simp: get_block_def blk blen_def)
  have fresh: "\<exists>memory'. get_block memory (Some read_mifare_classic) n = Inr (memory', d)
                \<and> length memory' = 1024
                \<and> py_slice memory' (16 * k) (16 * k + 16) = d
                \<and> (\<forall>i < 1024. i < 16 * k \<or> 16 * k + 16 \<le> i \<longrightarrow> memory' ! i = memory ! i)"
    if rd: "read_mifare_classic n = Inr (Some d)" and d: "length d = 16" for d
  proof -
    define memory' where "memory' = take (16 * k) memory @ d @ drop (16 * k + 16) memory"
    have ne: "d \<noteq> []" using d by auto
    have w: "py_slice memory' (16 * k) (16 * k + 16) = d"
      using block_window_of_assigned [OF mem k(1) d]
      by (simp add: memory'_def block_window_def nsectors_def mult.commute)
    have "get_block memory (Some read_mifare_classic) n = Inr (memory', d)"
      using guard rd d ne block_window_assign [OF mem k(1) d] w
      by (simp add: get_block_def blen_def k(2) [symmetric] memory'_def [symmetric] blk)
    moreover have "length memory' = 1024" using mem k d by (simp add: memory'_def)
    moreover have "\<forall>i < 1024. i < 16 * k \<or> 16 * k + 16 \<le> i \<longrightarrow> memory' ! i = memory ! i"
      using assigned_outside [OF mem k(1) d] by (simp add: memory'_def)
    ultimately show ?thesis using w by blast
  qed
  show ?thesis unfolding k_def [symmetric] using stale fresh by blast
qed

theorem get_block_frame_witness:
  "get_block (replicate 1024 0) (Some (\<lambda>n. Inr None)) 1 = Inr (replicate 1024 0, replicate 16 0)
   \<and> (\<exists>memory'. get_block (replicate 1024 0) (Some (\<lambda>n. Inr (Some (replicate 16 0xAA)))) 1
          = Inr (memory', replicate 16 0xAA)
        \<and> memory' ! 15 = 0 \<and> memory' ! 32 = 0)"
proof -
  have len: "length (replicate 1024 (0 :: byte)) = 1024" by simp
  have a: "get_block (replicate 1024 0) (Some (\<lambda>n. Inr None)) 1
        = Inr (replicate 1024 0, replicate 16 0)"
    using get_block_frame [OF len, of 1 "\<lambda>n. Inr None"] by (simp add: py_slice_def)
  have b: "\<exists>memory'. get_block (replicate 1024 0) (Some (\<lambda>n. Inr (Some (replicate 16 0xAA)))) 1
          = Inr (memory', replicate 16 0xAA)
        \<and> memory' ! 15 = 0 \<and> memory' ! 32 = 0"
    using get_block_frame [OF len, of 1 "\<lambda>n. Inr (Some (replicate 16 0xAA))"]
    by (auto simp: py_slice_def)
  show ?thesis using a b by blast
qed

section \<open>Mifare application directory: the NFC sectors\<close>

lemma nfc_sectors_loop_filter:
  "nfc_sectors_loop bo aids acc
     = acc @ map fst (filter (\<lambda>(k, aid). unpack_H bo aid = Inr MAD_AID_NFC) aids)"
proof (induction aids arbitrary: acc)
  case Nil
  then show ?case by simp
next
  case (Cons p aids)
  obtain k aid where p: "p = (k, aid)" by (cases p)
  have z: "MAD_AID_NFC \<noteq> 0" by (simp add: MAD_AID_NFC_def)
  show ?case
    using z by (cases "unpack_H bo aid") (auto simp: p Cons.IH Let_def)
qed

lemma py_slice_pair:
  "i + 1 < length xs \<Longrightarrow> py_slice xs i (i + 2) = [xs ! i, xs ! (i + 1)]"
proof -
  assume a: "i + 1 < length xs"
  have "drop i xs = xs ! i # drop (Suc i) xs" using a by (simp add: Cons_nth_drop_Suc)
  moreover have "drop (Suc i) xs = xs ! (Suc i) # drop (Suc (Suc i)) xs"
    using a by (simp add: Cons_nth_drop_Suc)
  ultimately show ?thesis by (simp add: py_slice_def numeral_2_eq_2)
qed

lemma mad_aids_members:
  assumes "length data = 32"
  shows "(k, aid) \<in> set (zip [1..<16] (map (\<lambda>i. py_slice data i (i + 2)) (map (\<lambda>j. 2 + 2 * j) [0..<15])))
         \<longleftrightarrow> 1 \<le> k \<and> k \<le> 15 \<and> aid = [data ! (2 * k), data ! (2 * k + 1)]"
proof -
  have "(k, aid) \<in> set (zip [1..<16] (map (\<lambda>i. py_slice data i (i + 2)) (map (\<lambda>j. 2 + 2 * j) [0..<15])))
        \<longleftrightarrow> (\<exists>j < 15. k = 1 + j \<and> aid = py_slice data (2 + 2 * j) (2 + 2 * j + 2))"
  proof -
    have "[1..<16] = map Suc [0..<15]" by (simp add: map_Suc_upt)
    then have "zip [1..<16] (map (\<lambda>i. py_slice data i (i + 2)) (map (\<lambda>j. 2 + 2 * j) [0..<15]))
        = map (\<lambda>j. (Suc j, py_slice data (2 + 2 * j) (2 + 2 * j + 2))) [0..<15]"
      by (simp add: zip_map_map zip_same_conv_map comp_def del: upt_Suc)
    then show ?thesis by (auto simp del: upt_Suc)
  qed
  also have "\<dots> \<longleftrightarrow> (\<exists>j < 15. k = 1 + j \<and> aid = [data ! (2 + 2 * j), data ! (2 + 2 * j + 1)])"
  proof -
    have "py_slice data (2 + 2 * j) (2 + 2 * j + 2) = [data ! (2 + 2 * j), data ! (2 + 2 * j + 1)]"
      if "j < 15" for j
      using that assms by (intro py_slice_pair) simp
    then show ?thesis by metis
  qed
  also have "\<dots> \<longleftrightarrow> 1 \<le> k \<and> k \<le> 15 \<and> aid = [data ! (2 * k), data ! (2 * k + 1)]"
  proof
    assume "\<exists>j < 15. k = 1 + j \<and> aid = [data ! (2 + 2 * j), data ! (2 + 2 * j + 1)]"
    then show "1 \<le> k \<and> k \<le> 15 \<and> aid = [data ! (2 * k), data ! (2 * k + 1)]" by auto
  next
    assume a: "1 \<le> k \<and> k \<le> 15 \<and> aid = [data ! (2 * k), data ! (2 * k + 1)]"
    then have "k - 1 < 15 \<and> k = 1 + (k - 1) \<and> 2 + 2 * (k - 1) = 2 * k" by auto
    then show "\<exists>j < 15. k = 1 + j \<and> aid = [data ! (2 + 2 * j), data ! (2 + 2 * j + 1)]"
      using a by (metis)
  qed
  finally show ?thesis .
qed

lemma mad1_sectors_char:
  assumes len: "length data = 32"
  shows "\<exists>m. set_mad_data bo data = Inr m
          \<and> (\<forall>k. k \<in> set (NFCSectors bo m)
                \<longleftrightarrow> 1 \<le> k \<and> k \<le> 15
                    \<and> unpack_H bo [data ! (2 * k), data ! (2 * k + 1)] = Inr MAD_AID_NFC)
          \<and> (bo = LittleEndian \<and> data ! 6 = 0x03 \<and> data ! 7 = 0xE1
                \<longrightarrow> 3 \<in> set (NFCSectors bo m))
          \<and> (bo = BigEndian \<and> data ! 6 = 0xE1 \<and> data ! 7 = 0x03
                \<longrightarrow> 3 \<in> set (NFCSectors bo m))"
proof -
  define aids where
    "aids = zip [1..<16] (map (\<lambda>i. py_slice data i (i + 2)) (map (\<lambda>j. 2 + 2 * j) [0..<15]))"
  define m where
    "m = get_nfc_sectors bo \<lparr>mad_data = data, mad_crc = data ! 0, mad_info = data ! 1,
                              mad_aids = aids, mad_nfc_sectors = []\<rparr>"
  have ne: "aids \<noteq> []" by (simp add: aids_def upt_rec [of 1 16] upt_rec [of 0 15])
  have sm: "set_mad_data bo data = Inr m"
    using len by (simp add: set_mad_data_def py_index_def m_def aids_def)
  have secs: "NFCSectors bo m
      = map fst (filter (\<lambda>(k, aid). unpack_H bo aid = Inr MAD_AID_NFC) aids)"
    using ne by (simp add: NFCSectors_def m_def get_nfc_sectors_def nfc_sectors_loop_filter)
  have mem: "k \<in> set (NFCSectors bo m)
                \<longleftrightarrow> 1 \<le> k \<and> k \<le> 15
                    \<and> unpack_H bo [data ! (2 * k), data ! (2 * k + 1)] = Inr MAD_AID_NFC" for k
  proof -
    have "k \<in> set (NFCSectors bo m)
        \<longleftrightarrow> (\<exists>aid. (k, aid) \<in> set aids \<and> unpack_H bo aid = Inr MAD_AID_NFC)"
      unfolding secs by force
    also have "\<dots> \<longleftrightarrow> 1 \<le> k \<and> k \<le> 15
                    \<and> unpack_H bo [data ! (2 * k), data ! (2 * k + 1)] = Inr MAD_AID_NFC"
      unfolding aids_def mad_aids_members [OF len] by auto
    finally show ?thesis .
  qed
  have le: "bo = LittleEndian \<and> data ! 6 = 0x03 \<and> data ! 7 = 0xE1 \<longrightarrow> 3 \<in> set (NFCSectors bo m)"
    unfolding mem [of 3] by (simp add: unpack_H_def MAD_AID_NFC_def)
  have be: "bo = BigEndian \<and> data ! 6 = 0xE1 \<and> data ! 7 = 0x03 \<longrightarrow> 3 \<in> set (NFCSectors bo m)"
    unfolding mem [of 3] by (simp add: unpack_H_def MAD_AID_NFC_def)
  show ?thesis using sm mem le be by blast
qed

text \<open>
  Claim C1 (MAD1 sector detection), as amended. For a 32-byte directory, sector \<open>k\<close> is
  in \<open>NFCSectors\<close> exactly when \<open>k\<close> is one of \<open>1..15\<close> and the two bytes of its AID
  entry, read in the byte order of the host, give \<open>0xE103\<close>; every other sector is
  excluded. On a little-endian host the byte pair that marks sector 3 is \<open>03 E1\<close>;
  the pair \<open>E1 03\<close> marks it only on a big-endian host.
\<close>

theorem mad1_nfc_sectors:
  assumes len: "length data = 32"
  shows "\<exists>m. set_mad_data bo data = Inr m
          \<and> (\<forall>k. k \<in> set (NFCSectors bo m)
                \<longleftrightarrow> 1 \<le> k \<and> k \<le> 15
                    \<and> unpack_H bo [data ! (2 * k), data ! (2 * k + 1)] = Inr MAD_AID_NFC)
          \<and> (bo = LittleEndian \<and> data ! 6 = 0x03 \<and> data ! 7 = 0xE1
                \<longrightarrow> 3 \<in> set (NFCSectors bo m))
          \<and> (bo = BigEndian \<and> data ! 6 = 0xE1 \<and> data ! 7 = 0x03
                \<longrightarrow> 3 \<in> set (NFCSectors bo m))"
  using mad1_sectors_char [OF len] .

lemma mad_E1_03_nth: "length mad_E1_03 = 32" "mad_E1_03 ! 6 = 0xE1" "mad_E1_03 ! 7 = 0x03"
  by (simp_all add: mad_E1_03_def numeral_eq_Suc)

lemma mad_03_E1_nth: "length mad_03_E1 = 32" "mad_03_E1 ! 6 = 0x03" "mad_03_E1 ! 7 = 0xE1"
  by (simp_all add: mad_03_E1_def numeral_eq_Suc)

text \<open>
  The claim as written fails on a little-endian host: with the bytes \<open>E1 03\<close> in the
  entry of sector 3 the entry reads as \<open>0x03E1\<close>, and sector 3 is not in the list.
\<close>

theorem mad1_E1_03_counterexample:
  "\<not> is_nfc_sector LittleEndian mad_E1_03 3"
proof -
  obtain m where m: "set_mad_data LittleEndian mad_E1_03 = Inr m"
    and mem: "\<forall>k. k \<in> set (NFCSectors LittleEndian m)
                \<longleftrightarrow> 1 \<le> k \<and> k \<le> 15
                    \<and> unpack_H LittleEndian [mad_E1_03 ! (2 * k), mad_E1_03 ! (2 * k + 1)] = Inr MAD_AID_NFC"
    using mad1_sectors_char [OF mad_E1_03_nth(1), of LittleEndian] by blast
  have "3 \<notin> set (NFCSectors LittleEndian m)"
    using mem [rule_format, of 3] by (simp add: mad_E1_03_nth unpack_H_def MAD_AID_NFC_def)
  then show ?thesis by (simp add: is_nfc_sector_def m)
qed

theorem mad1_nfc_sectors_witness:
  "length mad_03_E1 = 32 \<and> is_nfc_sector LittleEndian mad_03_E1 3"
  using mad1_nfc_sectors [OF mad_03_E1_nth(1), of LittleEndian]
  by (auto simp: mad_03_E1_nth is_nfc_sector_def)

section \<open>Passive target detection\<close>







section \<open>URI records: the prefix table\<close>

lemma prefix_strings_length: "length prefix_strings = 36"
  by (simp add: prefix_strings_def)

lemma ascii_decode_append:
  "ascii_decode xs = Inr s \<Longrightarrow> ascii_decode (xs @ ys)
     = (case ascii_decode ys of Inl e \<Rightarrow> Inl e | Inr t \<Rightarrow> Inr (s @ t))"
  by (induction xs arbitrary: s) (auto split: if_splits sum.splits)

lemma ascii_decode_all:
  "list_all (\<lambda>b. unat b < 0x80) bs \<Longrightarrow> ascii_decode bs = Inr (map unat bs)"
  by (induction bs) auto

lemma unat_of_char: "unat (of_char c :: byte) = of_char c"
proof -
  have "unat (of_nat (of_char c) :: byte) = of_char c"
    by (simp add: unat_of_nat)
  then show ?thesis by (simp add: of_nat_of_char)
qed

lemma ascii_decode_of_char:
  "list_all (\<lambda>c. of_char c < (0x80 :: nat)) p \<Longrightarrow> ascii_decode (map of_char p) = Inr (pystr p)"
  by (induction p) (simp_all add: pystr_def unat_of_char)

lemma prefix_strings_all_ascii:
  "list_all (list_all (\<lambda>c. of_char c < (0x80 :: nat))) prefix_strings"
  by (simp add: prefix_strings_def)

lemma prefix_strings_ascii:
  "p \<in> set prefix_strings \<Longrightarrow> ascii_decode (map of_char p) = Inr (pystr p)"
  using prefix_strings_all_ascii by (auto simp: list_all_iff intro!: ascii_decode_of_char)

text \<open>
  Claim C10 (URI prefix code). A first payload byte above 35 makes the table lookup
  raise \<open>IndexError\<close>, which nothing catches, instead of a decode error or the
  unabbreviated URI. For a code in \<open>0..35\<close> the decoder puts the table's prefix in front
  of the remaining bytes (code 0 is the empty prefix) and the URI is the ASCII reading
  of the result.
\<close>

theorem uri_decode_prefix_code:
  "(35 < unat code \<longrightarrow> uri_decode_payload (code # data) = Inl IndexError)
   \<and> (unat code \<le> 35 \<longrightarrow>
        uri_decode_payload (code # data)
          = MicroUri_init (map of_char (prefix_strings ! unat code) @ data))
   \<and> (unat code \<le> 35 \<and> list_all (\<lambda>b. unat b < 0x80) data \<longrightarrow>
        uri_decode_payload (code # data)
          = Inr (pystr (prefix_strings ! unat code) @ map unat data))
   \<and> prefix_strings ! 0 = []"
proof (intro conjI impI)
  assume "35 < unat code"
  then show "uri_decode_payload (code # data) = Inl IndexError"
    by (simp add: uri_decode_payload_def py_index_def prefix_strings_length)
next
  assume "unat code \<le> 35"
  then show "uri_decode_payload (code # data)
          = MicroUri_init (map of_char (prefix_strings ! unat code) @ data)"
    by (simp add: uri_decode_payload_def py_index_def prefix_strings_length)
next
  assume a: "unat code \<le> 35 \<and> list_all (\<lambda>b. unat b < 0x80) data"
  then have "prefix_strings ! unat code \<in> set prefix_strings"
    by (simp add: prefix_strings_length)
  then have "ascii_decode (map of_char (prefix_strings ! unat code) @ data)
      = Inr (pystr (prefix_strings ! unat code) @ map unat data)"
    using a by (simp add: ascii_decode_append [OF prefix_strings_ascii] ascii_decode_all)
  then show "uri_decode_payload (code # data)
          = Inr (pystr (prefix_strings ! unat code) @ map unat data)"
    using a by (simp add: uri_decode_payload_def py_index_def prefix_strings_length
        MicroUri_init_def value_to_unicode_def)
next
  show "prefix_strings ! 0 = []" by (simp add: prefix_strings_def)
qed

theorem uri_decode_prefix_code_witness:
  "uri_decode_payload [0x24, 0x61] = Inl IndexError
   \<and> uri_decode_payload (0x01 # map of_char ''example.com'')
       = Inr (pystr ''http://www.example.com'')"
proof -
  have a: "uri_decode_payload [0x24, 0x61] = Inl IndexError"
    using uri_decode_prefix_code [of "0x24" "[0x61]"] by simp
  have "uri_decode_payload (0x01 # map of_char ''example.com'')
       = Inr (pystr (prefix_strings ! unat (0x01 :: byte)) @ map unat (map of_char ''example.com'' :: byte list))"
    using uri_decode_prefix_code [of "0x01" "map of_char ''example.com''",
        THEN conjunct2, THEN conjunct2, THEN conjunct1]
    by simp
  then have b: "uri_decode_payload (0x01 # map of_char ''example.com'')
       = Inr (pystr ''http://www.example.com'')"
    by (simp add: prefix_strings_def pystr_def)
  show ?thesis using a b by blast
qed


section \<open>Text records: the encoder and the decoder\<close>

lemma hello_decode: "text_decode_payload bo hello_payload = Inr hello_record"
  by (simp add: text_decode_payload_def hello_record_def hello_payload_def decode_struct_B_def
      bytes_decode_def py_slice_def NDEFTextRecord_init_def Let_def pystr_def utf8_decode_cp_def)

lemma hello_encodings:
  "str_encode bo (pystr ''ascii'') (pystr ''en'') = Inr [0x65, 0x6E]"
  "str_encode bo (pystr ''UTF-8'') (pystr ''hello'') = Inr [0x68, 0x65, 0x6C, 0x6C, 0x6F]"
  by (simp_all add: str_encode_def pystr_def utf8_encode_cp_def)

lemma text_encode_payload_never_returns: "text_encode_payload bo r \<noteq> Inr payload"
  by (simp add: text_encode_payload_def NDEFRecord_encode_struct_def Let_def split: sum.splits)

text \<open>
  Claim C3 (text record round-trip). The payload that the data model prescribes for
  text "hello", language "en" and encoding "UTF-8" is \<open>02 65 6E 68 65 6C 6C 6F\<close>, and
  the decoder turns it into exactly these three fields. The encoder does not produce
  it: both strings are encoded, then the call of the missing \<open>_encode_struct\<close> raises
  \<open>AttributeError\<close>, for this record and for every other one, so there is no payload
  and no flag byte.
\<close>

theorem text_encode_payload_raises:
  "text_encode_payload bo
       \<lparr>tr_text = pystr ''hello'', tr_language = pystr ''en'', tr_encoding = pystr ''UTF-8''\<rparr>
     = Inl AttributeError
   \<and> text_decode_payload bo [0x02, 0x65, 0x6E, 0x68, 0x65, 0x6C, 0x6C, 0x6F]
     = Inr \<lparr>tr_text = pystr ''hello'', tr_language = pystr ''en'', tr_encoding = pystr ''UTF-8''\<rparr>
   \<and> (\<exists>e. text_encode_payload bo r = Inl e)"
proof (intro conjI)
  show "text_encode_payload bo
       \<lparr>tr_text = pystr ''hello'', tr_language = pystr ''en'', tr_encoding = pystr ''UTF-8''\<rparr>
     = Inl AttributeError"
    by (simp add: text_encode_payload_def hello_encodings NDEFRecord_encode_struct_def)
  show "text_decode_payload bo [0x02, 0x65, 0x6E, 0x68, 0x65, 0x6C, 0x6C, 0x6F]
     = Inr \<lparr>tr_text = pystr ''hello'', tr_language = pystr ''en'', tr_encoding = pystr ''UTF-8''\<rparr>"
    using hello_decode [of bo] by (simp add: hello_record_def hello_payload_def)
  show "\<exists>e. text_encode_payload bo r = Inl e"
    using text_encode_payload_never_returns [of bo r] by (cases "text_encode_payload bo r") auto
qed

section \<open>NDEF record decoder: the header errors\<close>

lemma check_fields_None_iff:
  "TNF < 7 \<Longrightarrow> check_fields TNF flds = None \<longleftrightarrow> field_invariants TNF (flds ! 0) (flds ! 1) (flds ! 2)"
  by (auto simp: check_fields_def field_invariants_def)

lemma check_fields_Some:
  "check_fields TNF flds = Some msg \<Longrightarrow> TNF < 7 \<Longrightarrow> fields_error msg TNF \<in> set field_invariant_errors"
proof -
  assume a: "check_fields TNF flds = Some msg" and t: "TNF < 7"
  have m: "msg \<in> {''TYPE_LENGTH must be 0'', ''ID_LENGTH must be 0'',
                ''PAYLOAD_LENGTH must be 0'', ''TYPE_LENGTH must be > 0''}"
    using a by (auto simp: check_fields_def split: if_splits)
  have "TNF \<in> {0, 1, 2, 3, 4, 5, 6}" using t by auto
  then show ?thesis using m unfolding field_invariant_errors_def by auto
qed

lemma header_error_first_char:
  assumes "e = invalid_tnf_error \<or> e = payload_too_large_error \<or> e \<in> set field_invariant_errors"
  shows "\<exists>c m. e = NDEFdecodeError (c # m) \<and> c \<in> {CHR ''T'', CHR ''I'', CHR ''P'', CHR ''p''}"
  using assms
  by (auto simp: invalid_tnf_error_def payload_too_large_error_def field_invariant_errors_def
      fields_error_def)

lemma utf8_decode_cp_error: "utf8_decode_cp b bs = Inl e \<Longrightarrow> e = UnicodeDecodeError"
  unfolding utf8_decode_cp_def Let_def
  by (cases bs rule: remdups_adj.cases; cases "tl (tl bs)"; cases "tl (tl (tl bs))")
    (auto split: if_splits)

lemma utf8_decode_error: "utf8_decode bs = Inl e \<Longrightarrow> e = UnicodeDecodeError"
  by (induction bs arbitrary: e rule: utf8_decode.induct)
    (auto dest: utf8_decode_cp_error split: sum.splits prod.splits)

lemma utf16_decode_cp_error: "utf16_decode_cp bo b0 bs = Inl e \<Longrightarrow> e = UnicodeDecodeError"
  unfolding utf16_decode_cp_def Let_def
  by (cases bs rule: remdups_adj.cases; cases "tl (tl bs)")
    (auto split: if_splits)

lemma utf16_decode_units_error: "utf16_decode_units bo bs = Inl e \<Longrightarrow> e = UnicodeDecodeError"
  by (induction bo bs arbitrary: e rule: utf16_decode_units.induct)
    (auto dest: utf16_decode_cp_error split: sum.splits prod.splits)

lemma utf16_decode_error: "utf16_decode bo bs = Inl e \<Longrightarrow> e = UnicodeDecodeError"
  unfolding utf16_decode_def
  by (auto simp del: utf16_decode_units.simps dest: utf16_decode_units_error
      split: list.splits if_splits)

lemma ascii_decode_error: "ascii_decode bs = Inl e \<Longrightarrow> e = UnicodeDecodeError"
  by (induction bs arbitrary: e) (auto split: if_splits sum.splits)

lemma bytes_decode_error:
  "bytes_decode bo codec bs = Inl e \<Longrightarrow> e = UnicodeDecodeError \<or> e = LookupError"
  unfolding bytes_decode_def
  by (auto dest: utf8_decode_error utf16_decode_error ascii_decode_error split: if_splits)


lemma text_decode_payload_error:
  assumes "text_decode_payload bo octets = Inl e"
  shows "e \<in> {NDEFdecodeError ''buffer too small'',
              NDEFdecodeError ''language code length can not be zero'',
              NDEFdecodeError ''language code length exceeds payload'',
              cant_be_decoded (pystr ''UTF-8''), cant_be_decoded (pystr ''UTF-16''),
              AttributeError, LookupError}"
  using assms
  unfolding text_decode_payload_def decode_struct_B_def NDEFTextRecord_init_def Let_def
  by (auto split: list.splits if_splits sum.splits dest!: bytes_decode_error)

lemma uri_decode_payload_error:
  assumes "uri_decode_payload octets = Inl e"
  shows "e \<in> {IndexError, ValueError ''NDEFRecord: uri conversion requires ascii text, but got ''}"
  using assms
  unfolding uri_decode_payload_def py_index_def MicroUri_init_def value_to_unicode_def
  by (auto split: list.splits if_splits sum.splits)

lemma class_decode_payload_error:
  assumes "class_decode_payload bo cls P = Inl e"
  shows "\<forall>c m. e = NDEFdecodeError (c # m) \<longrightarrow> c \<in> {CHR ''b'', CHR ''l'', CHR ''c''}"
proof (cases cls)
  case NDEFTextRecord
  then have "text_decode_payload bo P = Inl e"
    using assms by (simp add: class_decode_payload_def split: sum.splits)
  from text_decode_payload_error [OF this] show ?thesis
    by (auto simp: cant_be_decoded_def)
next
  case MicroUri
  then have "uri_decode_payload P = Inl e"
    using assms by (simp add: class_decode_payload_def split: sum.splits)
  from uri_decode_payload_error [OF this] show ?thesis by auto
qed

lemma decode_type_error:
  assumes "decode_type TNF T = Inl e"
  shows "\<forall>m. e \<noteq> NDEFdecodeError m"
  using assms unfolding decode_type_def
  by (auto split: if_splits sum.splits dest: utf8_decode_error)

lemma decode_fields_tnf7:
  assumes "bio_read stream 1 = ([octet0], s1)" and "unat (octet0 AND 7) = 7"
  shows "decode_fields stream = Inl invalid_tnf_error"
  using assms by (simp add: decode_fields_def Let_def invalid_tnf_error_def)

lemma decode_fields_check_failed:
  assumes "bio_read stream 1 = ([octet0], s1)" and "unat (octet0 AND 7) \<noteq> 7"
    and "read_length_fields (octet0 AND 16 \<noteq> 0) (octet0 AND 8 \<noteq> 0) s1 = Inr (flds, s2)"
    and "check_fields (unat (octet0 AND 7)) flds = Some msg"
  shows "decode_fields stream = Inl (fields_error msg (unat (octet0 AND 7)))"
  using assms by (simp add: decode_fields_def Let_def)

lemma decode_fields_too_large:
  assumes "bio_read stream 1 = ([octet0], s1)" and "unat (octet0 AND 7) \<noteq> 7"
    and "read_length_fields (octet0 AND 16 \<noteq> 0) (octet0 AND 8 \<noteq> 0) s1 = Inr (flds, s2)"
    and "check_fields (unat (octet0 AND 7)) flds = None"
    and "512 < flds ! 1"
  shows "decode_fields stream = Inl payload_too_large_error"
  using assms
  by (simp add: decode_fields_def Let_def payload_too_large_error_def MAX_PAYLOAD_SIZE_def)

lemma decode_fields_header_ok:
  assumes "bio_read stream 1 = ([octet0], s1)" and "unat (octet0 AND 7) \<noteq> 7"
    and "read_length_fields (octet0 AND 16 \<noteq> 0) (octet0 AND 8 \<noteq> 0) s1 = Inr (flds, s2)"
    and "check_fields (unat (octet0 AND 7)) flds = None"
    and "flds ! 1 \<le> 512"
    and "decode_fields stream = Inl e"
  shows "e \<in> {NDEFdecodeError ''buffer underflow at reading TYPE field'',
              NDEFdecodeError ''buffer underflow at reading ID field'',
              NDEFdecodeError ''buffer underflow at reading PAYLOAD field''}"
  using assms
  by (simp add: decode_fields_def Let_def MAX_PAYLOAD_SIZE_def split: if_splits)

lemma tnf_less_8: "unat ((b :: byte) AND 7) < 8"
proof -
  have "b AND 7 \<le> 7" by (rule word_and_le1)
  then have "unat (b AND 7) \<le> 7" by (simp add: word_le_nat_alt)
  then show ?thesis by simp
qed


lemma decode_snd_of_fields_error:
  "decode_fields stream = Inl e \<Longrightarrow> snd (NDEFRecord_decode bo stream) = Inl e"
  by (simp add: NDEFRecord_decode_def)

lemma decode_late_error:
  assumes "decode_fields stream = Inr (f, s)" and "snd (NDEFRecord_decode bo stream) = Inl e"
  shows "\<forall>c m. e = NDEFdecodeError (c # m) \<longrightarrow> c \<in> {CHR ''b'', CHR ''l'', CHR ''c''}"
proof (cases "decode_type (f_TNF f) (f_TYPE f)")
  case (Inl e')
  then have "e = e'" using assms by (simp add: NDEFRecord_decode_def)
  then show ?thesis using decode_type_error [OF Inl] by simp
next
  case (Inr record_type)
  show ?thesis
  proof (cases "known_types record_type")
    case None
    then show ?thesis using assms Inr by (simp add: NDEFRecord_decode_def)
  next
    case (Some cls)
    then have "class_decode_payload bo cls (f_PAYLOAD f) = Inl e"
      using assms Inr by (simp add: NDEFRecord_decode_def split: sum.splits)
    then show ?thesis by (rule class_decode_payload_error)
  qed
qed

lemma not_header_error:
  assumes "\<forall>c m. e = NDEFdecodeError (c # m) \<longrightarrow> c \<in> {CHR ''b'', CHR ''l'', CHR ''c''}"
  shows "e \<noteq> invalid_tnf_error \<and> e \<noteq> payload_too_large_error \<and> e \<notin> set field_invariant_errors"
proof -
  have "False" if "e = invalid_tnf_error \<or> e = payload_too_large_error \<or> e \<in> set field_invariant_errors"
  proof -
    from header_error_first_char [OF that] obtain c m
      where "e = NDEFdecodeError (c # m)" and "c \<in> {CHR ''T'', CHR ''I'', CHR ''P'', CHR ''p''}"
      by blast
    then show False using assms by auto
  qed
  then show ?thesis by blast
qed

text \<open>
  Claim C5 (header errors), as amended. Let \<open>octet0\<close> be the header octet and
  \<open>flds\<close> the length fields read after it (type length, payload length, ID length).
  A TNF of 7 raises the invalid-TNF error. For a TNF of 0 to 6: a violated field
  invariant raises a field-invariant error; when the field invariants hold and the
  payload length exceeds 512, the payload-too-large error is raised; when the
  invariants hold and the payload length is at most 512, none of the three errors is
  raised, whatever the rest of the decoding does.
\<close>

theorem decode_header_errors:
  assumes rd: "bio_read stream 1 = ([octet0], s1)"
  shows
    "(unat (octet0 AND 7) = 7 \<longrightarrow> snd (NDEFRecord_decode bo stream) = Inl invalid_tnf_error)
     \<and> (\<forall>flds s2.
           unat (octet0 AND 7) \<noteq> 7
           \<and> read_length_fields (octet0 AND 16 \<noteq> 0) (octet0 AND 8 \<noteq> 0) s1 = Inr (flds, s2)
         \<longrightarrow>
           ((unat (octet0 AND 7) \<in> {0, 5, 6} \<and> flds ! 0 \<noteq> 0
             \<or> unat (octet0 AND 7) = 0 \<and> (flds ! 2 \<noteq> 0 \<or> flds ! 1 \<noteq> 0)
             \<or> unat (octet0 AND 7) \<in> {1, 2, 3, 4} \<and> flds ! 0 = 0
            \<longrightarrow> (\<exists>e. e \<in> set field_invariant_errors
                     \<and> snd (NDEFRecord_decode bo stream) = Inl e))
           \<and> (field_invariants (unat (octet0 AND 7)) (flds ! 0) (flds ! 1) (flds ! 2)
               \<and> 512 < flds ! 1
            \<longrightarrow> snd (NDEFRecord_decode bo stream) = Inl payload_too_large_error)
           \<and> (field_invariants (unat (octet0 AND 7)) (flds ! 0) (flds ! 1) (flds ! 2)
               \<and> flds ! 1 \<le> 512
            \<longrightarrow> snd (NDEFRecord_decode bo stream) \<noteq> Inl invalid_tnf_error
                \<and> snd (NDEFRecord_decode bo stream) \<noteq> Inl payload_too_large_error
                \<and> (\<forall>e. e \<in> set field_invariant_errors
                       \<longrightarrow> snd (NDEFRecord_decode bo stream) \<noteq> Inl e))))"
proof (intro conjI allI impI)
  assume "unat (octet0 AND 7) = 7"
  then show "snd (NDEFRecord_decode bo stream) = Inl invalid_tnf_error"
    using decode_fields_tnf7 [OF rd] by (simp add: decode_snd_of_fields_error)
next
  fix flds s2
  define TNF where "TNF = unat (octet0 AND 7)"
  assume a: "unat (octet0 AND 7) \<noteq> 7
       \<and> read_length_fields (octet0 AND 16 \<noteq> 0) (octet0 AND 8 \<noteq> 0) s1 = Inr (flds, s2)"
  have t: "TNF < 7" using a tnf_less_8 [of octet0] by (simp add: TNF_def)
  have inv: "check_fields TNF flds = None
      \<longleftrightarrow> field_invariants TNF (flds ! 0) (flds ! 1) (flds ! 2)"
    using check_fields_None_iff [OF t] .
  {
    assume v: "unat (octet0 AND 7) \<in> {0, 5, 6} \<and> flds ! 0 \<noteq> 0
             \<or> unat (octet0 AND 7) = 0 \<and> (flds ! 2 \<noteq> 0 \<or> flds ! 1 \<noteq> 0)
             \<or> unat (octet0 AND 7) \<in> {1, 2, 3, 4} \<and> flds ! 0 = 0"
    then have "\<not> field_invariants TNF (flds ! 0) (flds ! 1) (flds ! 2)"
      unfolding TNF_def [symmetric] by (auto simp: field_invariants_def)
    then obtain msg where msg: "check_fields TNF flds = Some msg"
      using inv by (cases "check_fields TNF flds") auto
    have "decode_fields stream = Inl (fields_error msg TNF)"
      using decode_fields_check_failed [OF rd] a msg by (simp add: TNF_def)
    then show "\<exists>e. e \<in> set field_invariant_errors
                     \<and> snd (NDEFRecord_decode bo stream) = Inl e"
      using check_fields_Some [OF msg t] decode_snd_of_fields_error by blast
  }
  {
    assume b: "field_invariants (unat (octet0 AND 7)) (flds ! 0) (flds ! 1) (flds ! 2)
               \<and> 512 < flds ! 1"
    then have "check_fields TNF flds = None" using inv by (simp add: TNF_def)
    then have "decode_fields stream = Inl payload_too_large_error"
      using decode_fields_too_large [OF rd] a b by (simp add: TNF_def)
    then show "snd (NDEFRecord_decode bo stream) = Inl payload_too_large_error"
      by (rule decode_snd_of_fields_error)
  }
  {
    assume c: "field_invariants (unat (octet0 AND 7)) (flds ! 0) (flds ! 1) (flds ! 2)
               \<and> flds ! 1 \<le> 512"
    then have chk: "check_fields (unat (octet0 AND 7)) flds = None"
      using inv by (simp add: TNF_def)
    have late: "\<forall>c m. e = NDEFdecodeError (c # m) \<longrightarrow> c \<in> {CHR ''b'', CHR ''l'', CHR ''c''}"
      if e: "snd (NDEFRecord_decode bo stream) = Inl e" for e
    proof (cases "decode_fields stream")
      case (Inl e')
      then have "e = e'" using e by (simp add: NDEFRecord_decode_def)
      then show ?thesis
        using decode_fields_header_ok [OF rd _ _ chk _ Inl] a c by auto
    next
      case (Inr p)
      then show ?thesis using decode_late_error [of stream "fst p" "snd p" bo e] e by simp
    qed
    show "snd (NDEFRecord_decode bo stream) \<noteq> Inl invalid_tnf_error"
      using late not_header_error by blast
    show "snd (NDEFRecord_decode bo stream) \<noteq> Inl payload_too_large_error"
      using late not_header_error by blast
    fix e
    assume "e \<in> set field_invariant_errors"
    then show "snd (NDEFRecord_decode bo stream) \<noteq> Inl e"
      using late not_header_error by blast
  }
qed


lemma long_payload_read:
  "bio_read long_payload_without_type 1
     = ([0x01], \<lparr>content = [0x01, 0x00, 0x00, 0x00, 0x02, 0x01], pos = 1\<rparr>)"
  "read_length_fields False False \<lparr>content = [0x01, 0x00, 0x00, 0x00, 0x02, 0x01], pos = 1\<rparr>
     = Inr ([0, 513, 0], \<lparr>content = [0x01, 0x00, 0x00, 0x00, 0x02, 0x01], pos = 6\<rparr>)"
  by (simp_all add: long_payload_without_type_def bio_read_def read_length_fields_def py_slice_def
      Let_def unpack_BE_L_def)

text \<open>
  The claim as written asks for the payload-too-large error for every header whose
  payload length exceeds 512. The field invariants are checked first: with TNF 1, type
  length 0 and payload length 513 the error is the field-invariant one.
\<close>

theorem decode_header_counterexample:
  "snd (NDEFRecord_decode LittleEndian long_payload_without_type)
     = Inl (NDEFdecodeError ''TYPE_LENGTH must be > 0 for TNF value 1'')
   \<and> snd (NDEFRecord_decode LittleEndian long_payload_without_type) \<noteq> Inl payload_too_large_error"
proof -
  have "check_fields 1 [0, 513, 0] = Some ''TYPE_LENGTH must be > 0''"
    by (simp add: check_fields_def)
  then have "decode_fields long_payload_without_type
      = Inl (fields_error ''TYPE_LENGTH must be > 0'' 1)"
    using decode_fields_check_failed [OF long_payload_read(1), of _ _ "''TYPE_LENGTH must be > 0''"]
      long_payload_read(2)
    by simp
  then have "snd (NDEFRecord_decode LittleEndian long_payload_without_type)
      = Inl (NDEFdecodeError ''TYPE_LENGTH must be > 0 for TNF value 1'')"
    by (simp add: decode_snd_of_fields_error fields_error_def char_of_eq_iff)
  then show ?thesis by (simp add: payload_too_large_error_def)
qed

theorem decode_header_errors_witness:
  "bio_read long_payload_with_type 1
     = ([0x01], \<lparr>content = [0x01, 0x01, 0x00, 0x00, 0x02, 0x01], pos = 1\<rparr>)
   \<and> snd (NDEFRecord_decode LittleEndian long_payload_with_type) = Inl payload_too_large_error"
proof -
  have rd: "bio_read long_payload_with_type 1
     = ([0x01], \<lparr>content = [0x01, 0x01, 0x00, 0x00, 0x02, 0x01], pos = 1\<rparr>)"
    by (simp add: long_payload_with_type_def bio_read_def py_slice_def Let_def)
  have lf: "read_length_fields ((0x01 :: byte) AND 16 \<noteq> 0) ((0x01 :: byte) AND 8 \<noteq> 0)
              \<lparr>content = [0x01, 0x01, 0x00, 0x00, 0x02, 0x01], pos = 1\<rparr>
     = Inr ([1, 513, 0], \<lparr>content = [0x01, 0x01, 0x00, 0x00, 0x02, 0x01], pos = 6\<rparr>)"
    by (simp add: bio_read_def read_length_fields_def py_slice_def Let_def unpack_BE_L_def)
  have inv: "field_invariants (unat ((0x01 :: byte) AND 7)) ([1, 513, 0] ! 0) ([1, 513, 0] ! 1) ([1, 513, 0] ! 2)
       \<and> 512 < [1, 513, 0 :: nat] ! 1"
    by (simp add: field_invariants_def)
  have "snd (NDEFRecord_decode LittleEndian long_payload_with_type) = Inl payload_too_large_error"
    using decode_header_errors [OF rd, of LittleEndian, THEN conjunct2, rule_format,
        of "[1, 513, 0]" "\<lparr>content = [0x01, 0x01, 0x00, 0x00, 0x02, 0x01], pos = 6\<rparr>",
        THEN conjunct2, THEN conjunct1, rule_format] lf inv
    by simp
  then show ?thesis using rd by simp
qed

section \<open>NDEF record decoder: length check against the class limits\<close>

lemma decode_fields_payload_cap:
  assumes "decode_fields stream = Inr (f, s)"
  shows "length (f_PAYLOAD f) \<le> 512"
proof -
  obtain octet0 where r0: "fst (bio_read stream 1) = octet0 # tl (fst (bio_read stream 1))"
    using assms by (cases "fst (bio_read stream 1)") (auto simp: decode_fields_def Let_def)
  obtain flds s1 where
    lf: "read_length_fields (octet0 AND 16 \<noteq> 0) (octet0 AND 8 \<noteq> 0) (snd (bio_read stream 1))
           = Inr (flds, s1)"
    using assms r0
    by (cases "read_length_fields (octet0 AND 16 \<noteq> 0) (octet0 AND 8 \<noteq> 0) (snd (bio_read stream 1))")
      (auto simp: decode_fields_def Let_def split: list.splits if_splits)
  have "flds ! 1 \<le> 512 \<and> flds ! 1 = length (f_PAYLOAD f)"
    using assms r0 lf
    by (auto simp: decode_fields_def Let_def MAX_PAYLOAD_SIZE_def
        split: list.splits if_splits option.splits)
  then show ?thesis by simp
qed

lemma empty_payload_decoders:
  "class_decode_payload bo NDEFTextRecord [] = Inl (NDEFdecodeError ''buffer too small'')"
  "class_decode_payload bo MicroUri [] = Inl IndexError"
  by (simp_all add: class_decode_payload_def text_decode_payload_def decode_struct_B_def
      uri_decode_payload_def)

text \<open>
  Claim C8 (length check of a known type), as amended. The declared limits are 1 and
  512 for both known types. A record that passes the header stage has at most 512
  payload bytes, so the upper limit is never violated at the length check: a payload
  length above 512 is refused earlier, by the payload-too-large error, with nothing
  printed. A record of a known type with an empty payload passes the length check with
  the one warning "payload length can not be less than {}" printed and no error of the
  check; the empty payload goes to the payload decoder of the class, and it is that
  decoder that raises (a decode error for a text record, \<open>IndexError\<close> for a URI
  record). Within the limits nothing is printed.
\<close>

theorem length_check_of_known_type:
  "(\<forall>f s record_type cls.
       decode_fields stream = Inr (f, s)
       \<and> decode_type (f_TNF f) (f_TYPE f) = Inr record_type
       \<and> known_types record_type = Some cls
     \<longrightarrow> length (f_PAYLOAD f) \<le> decode_max_payload_length cls
         \<and> (length (f_PAYLOAD f) < decode_min_payload_length cls
              \<longrightarrow> NDEFRecord_decode bo stream
                    = ([''payload length can not be less than {}''],
                       Inl (case cls of
                              NDEFTextRecord \<Rightarrow> NDEFdecodeError ''buffer too small''
                            | MicroUri \<Rightarrow> IndexError)))
         \<and> (decode_min_payload_length cls \<le> length (f_PAYLOAD f)
              \<longrightarrow> fst (NDEFRecord_decode bo stream) = []))
   \<and> (\<forall>octet0 s1 flds s2.
         bio_read stream 1 = ([octet0], s1) \<and> unat (octet0 AND 7) \<noteq> 7
         \<and> read_length_fields (octet0 AND 16 \<noteq> 0) (octet0 AND 8 \<noteq> 0) s1 = Inr (flds, s2)
         \<and> field_invariants (unat (octet0 AND 7)) (flds ! 0) (flds ! 1) (flds ! 2)
         \<and> 512 < flds ! 1
       \<longrightarrow> NDEFRecord_decode bo stream = ([], Inl payload_too_large_error))"
proof (intro conjI allI impI)
  fix f s record_type cls
  assume a: "decode_fields stream = Inr (f, s)
       \<and> decode_type (f_TNF f) (f_TYPE f) = Inr record_type
       \<and> known_types record_type = Some cls"
  have cap: "length (f_PAYLOAD f) \<le> 512" using a decode_fields_payload_cap by blast
  show "length (f_PAYLOAD f) \<le> decode_max_payload_length cls"
    using cap by (cases cls) (simp_all add: decode_max_payload_length_def)
  {
    assume "length (f_PAYLOAD f) < decode_min_payload_length cls"
    then have e: "f_PAYLOAD f = []"
      by (cases cls) (simp_all add: decode_min_payload_length_def)
    have w: "length_warnings cls [] = [''payload length can not be less than {}'']"
      by (cases cls)
        (simp_all add: length_warnings_def decode_min_payload_length_def
          decode_max_payload_length_def)
    show "NDEFRecord_decode bo stream
            = ([''payload length can not be less than {}''],
               Inl (case cls of
                      NDEFTextRecord \<Rightarrow> NDEFdecodeError ''buffer too small''
                    | MicroUri \<Rightarrow> IndexError))"
      using a e w by (cases cls) (simp_all add: NDEFRecord_decode_def empty_payload_decoders)
  }
  {
    assume "decode_min_payload_length cls \<le> length (f_PAYLOAD f)"
    then have "length_warnings cls (f_PAYLOAD f) = []"
      using cap
      by (cases cls) (auto simp: length_warnings_def decode_min_payload_length_def
          decode_max_payload_length_def)
    then show "fst (NDEFRecord_decode bo stream) = []"
      using a by (simp add: NDEFRecord_decode_def)
  }
next
  fix octet0 s1 flds s2
  assume b: "bio_read stream 1 = ([octet0], s1) \<and> unat (octet0 AND 7) \<noteq> 7
         \<and> read_length_fields (octet0 AND 16 \<noteq> 0) (octet0 AND 8 \<noteq> 0) s1 = Inr (flds, s2)
         \<and> field_invariants (unat (octet0 AND 7)) (flds ! 0) (flds ! 1) (flds ! 2)
         \<and> 512 < flds ! 1"
  then have "unat (octet0 AND 7) < 7" using tnf_less_8 [of octet0] by simp
  then have "check_fields (unat (octet0 AND 7)) flds = None"
    using b check_fields_None_iff by blast
  then have "decode_fields stream = Inl payload_too_large_error"
    using b decode_fields_too_large by blast
  then show "NDEFRecord_decode bo stream = ([], Inl payload_too_large_error)"
    by (simp add: NDEFRecord_decode_def)
qed

lemma empty_text_record_fields:
  "decode_fields empty_text_record
     = Inr (\<lparr>f_TNF = 1, f_MB = True, f_ME = True, f_CF = False,
             f_TYPE = [0x54], f_ID = [], f_PAYLOAD = []\<rparr>,
            \<lparr>content = [0xD1, 0x01, 0x00, 0x54], pos = 4\<rparr>)"
  by (simp add: empty_text_record_def decode_fields_def bio_read_def read_length_fields_def
      py_slice_def Let_def check_fields_def MAX_PAYLOAD_SIZE_def)

lemma oversize_text_record_read:
  "bio_read oversize_text_record 1
     = ([0xC1], oversize_text_record\<lparr>pos := 1\<rparr>)"
  "read_length_fields False False (oversize_text_record\<lparr>pos := 1\<rparr>)
     = Inr ([1, 513, 0], oversize_text_record\<lparr>pos := 6\<rparr>)"
  by (simp_all add: oversize_text_record_def bio_read_def read_length_fields_def py_slice_def
      Let_def unpack_BE_L_def)

theorem length_check_of_known_type_witness:
  "NDEFRecord_decode LittleEndian empty_text_record
     = ([''payload length can not be less than {}''], Inl (NDEFdecodeError ''buffer too small''))"
proof -
  have ty: "decode_type 1 [0x54] = Inr (pystr ''urn:nfc:wkt:T'')"
    by (simp add: decode_type_def type_prefix_def utf8_decode_cp_def pystr_def)
  have kn: "known_types (pystr ''urn:nfc:wkt:T'') = Some NDEFTextRecord"
    by (simp add: known_types_def)
  have hyp: "decode_fields empty_text_record
        = Inr (\<lparr>f_TNF = 1, f_MB = True, f_ME = True, f_CF = False,
                f_TYPE = [0x54], f_ID = [], f_PAYLOAD = []\<rparr>,
               \<lparr>content = [0xD1, 0x01, 0x00, 0x54], pos = 4\<rparr>)
      \<and> decode_type (f_TNF \<lparr>f_TNF = 1, f_MB = True, f_ME = True, f_CF = False,
                f_TYPE = [0x54], f_ID = [], f_PAYLOAD = []\<rparr>)
            (f_TYPE \<lparr>f_TNF = 1, f_MB = True, f_ME = True, f_CF = False,
                f_TYPE = [0x54], f_ID = [], f_PAYLOAD = []\<rparr>) = Inr (pystr ''urn:nfc:wkt:T'')
      \<and> known_types (pystr ''urn:nfc:wkt:T'') = Some NDEFTextRecord"
    using empty_text_record_fields ty kn by simp
  show ?thesis
    using length_check_of_known_type [of empty_text_record LittleEndian, THEN conjunct1,
        rule_format, OF hyp, THEN conjunct2, THEN conjunct1]
    by (simp add: decode_min_payload_length_def)
qed

text \<open>
  The claim as written fails above the upper limit: a text record that announces 513
  payload bytes is refused with the payload-too-large error and nothing is printed.
\<close>

theorem length_check_counterexample:
  "decode_type 1 [0x54] = Inr (pystr ''urn:nfc:wkt:T'')
   \<and> known_types (pystr ''urn:nfc:wkt:T'') = Some NDEFTextRecord
   \<and> length (drop 7 (content oversize_text_record)) = 513
   \<and> NDEFRecord_decode LittleEndian oversize_text_record = ([], Inl payload_too_large_error)"
proof -
  have ty: "decode_type 1 [0x54] = Inr (pystr ''urn:nfc:wkt:T'')"
    by (simp add: decode_type_def type_prefix_def utf8_decode_cp_def pystr_def)
  have kn: "known_types (pystr ''urn:nfc:wkt:T'') = Some NDEFTextRecord"
    by (simp add: known_types_def)
  have len: "length (drop 7 (content oversize_text_record)) = 513"
    by (simp add: oversize_text_record_def)
  have "check_fields 1 [1, 513, 0] = None" by (simp add: check_fields_def)
  then have "decode_fields oversize_text_record = Inl payload_too_large_error"
    using decode_fields_too_large [OF oversize_text_record_read(1), of "[1, 513, 0]"]
      oversize_text_record_read(2)
    by simp
  then have "NDEFRecord_decode LittleEndian oversize_text_record = ([], Inl payload_too_large_error)"
    by (simp add: NDEFRecord_decode_def)
  then show ?thesis using ty kn len by simp
qed


section \<open>TLV scanner: what is returned and what is raised\<close>


























section \<open>URI prefix code inside a whole record\<close>

text \<open>
  Nothing between the table lookup and the caller of \<open>_decode\<close> catches the
  \<open>IndexError\<close>: decoding a record whose URI payload starts with code 36 ends with it.
\<close>

lemma uri_record_code_36_fields:
  "decode_fields uri_record_code_36
     = Inr (\<lparr>f_TNF = 1, f_MB = True, f_ME = True, f_CF = False,
             f_TYPE = [0x55], f_ID = [], f_PAYLOAD = [0x24, 0x61]\<rparr>,
            \<lparr>content = [0xD1, 0x01, 0x02, 0x55, 0x24, 0x61], pos = 6\<rparr>)"
  by (simp add: uri_record_code_36_def decode_fields_def bio_read_def read_length_fields_def
      py_slice_def Let_def check_fields_def MAX_PAYLOAD_SIZE_def)

lemma uri_index_error_propagates:
  "NDEFRecord_decode bo uri_record_code_36 = ([], Inl IndexError)"
proof -
  have ty: "decode_type 1 [0x55] = Inr (pystr ''urn:nfc:wkt:U'')"
    by (simp add: decode_type_def type_prefix_def utf8_decode_cp_def pystr_def)
  have kn: "known_types (pystr ''urn:nfc:wkt:U'') = Some MicroUri"
    by (simp add: known_types_def pystr_def)
  have pl: "class_decode_payload bo MicroUri [0x24, 0x61] = Inl IndexError"
    by (simp add: class_decode_payload_def uri_decode_payload_def py_index_def prefix_strings_length)
  show ?thesis
    using uri_record_code_36_fields ty kn pl
    by (simp add: NDEFRecord_decode_def length_warnings_def decode_min_payload_length_def
        decode_max_payload_length_def)
qed

end
